theory Spec2Isabelle
  imports Complex_Main "HOL-Library.Sublist"
begin

section \<open>Data model\<close>

text \<open>
  The enumerations of \<^verbatim>\<open>scraper/models/models.py\<close>.
\<close>

datatype JobStatus = QUEUED | PROCESSING | COMPLETED | FAILED | CANCELLED

datatype ScrapingIntensity = BASIC | STANDARD | PREMIUM

datatype PlatformType =
  GOOGLE_MAPS | GOOGLE_BUSINESS | LINKEDIN | FACEBOOK | INSTAGRAM | GOOGLE_SEARCH

text \<open>
  A lead travels through discovery and enrichment as a Python \<^verbatim>\<open>Dict\<close>. An entry of
  that dictionary is absent, holds \<^verbatim>\<open>None\<close>, or holds a value; the three cases behave
  differently under \<^verbatim>\<open>lead.get(key, default)\<close>, so all three are kept.
\<close>

datatype 'a entry = Absent | Null | Val 'a

datatype py_error =
  AttributeError string  \<comment> \<open>the named string method called on \<^verbatim>\<open>None\<close>\<close>
| TypeError              \<comment> \<open>\<^verbatim>\<open>len(None)\<close>\<close>
| ValueError             \<comment> \<open>\<^verbatim>\<open>range()\<close> with a zero step\<close>
| RuntimeError string    \<comment> \<open>an exception raised by a collaborator, with its message\<close>

type_synonym payload = "(string \<times> string) list"

record lead =
  lead_id :: "nat entry"
  name :: "string entry"
  business_name :: "string entry"
  phone :: "string entry"
  email :: "string entry"
  website :: "string entry"
  address :: "string entry"
  enrichment_data :: "(string \<times> payload) list entry"
  quality_score :: "int entry"
  completeness_score :: "rat entry"
  confidence_score :: "rat entry"

section \<open>Strings\<close>

text \<open>
  A string is a list of characters, and a character is a code point below 256 (Unicode's
  first two blocks, Basic Latin and Latin-1 Supplement). On such text \<^verbatim>\<open>str.lower()\<close>
  works character by character: the letters \<^verbatim>\<open>A\<close> to \<^verbatim>\<open>Z\<close> (65 to 90) and the thirty
  capital letters of the Latin-1 Supplement (192 to 222 without the multiplication sign
  215) move up by 32, and every other character stays. \<^verbatim>\<open>str.isspace()\<close> holds for the
  code points 9 to 13, 28 to 32, 133 (next line) and 160 (no-break space), and
  \<^verbatim>\<open>str.strip()\<close> removes the characters for which it holds from both ends.
\<close>

definition lower_char :: "char \<Rightarrow> char" where
  "lower_char c =
     (let n = (of_char c :: nat)
      in if (65 \<le> n \<and> n \<le> 90) \<or> (192 \<le> n \<and> n \<le> 222 \<and> n \<noteq> 215)
         then char_of (n + 32) else c)"

definition lower :: "string \<Rightarrow> string" where
  "lower s = map lower_char s"

definition isspace :: "char \<Rightarrow> bool" where
  "isspace c =
     (let n = (of_char c :: nat)
      in (9 \<le> n \<and> n \<le> 13) \<or> (28 \<le> n \<and> n \<le> 32) \<or> n = 133 \<or> n = 160)"

definition strip :: "string \<Rightarrow> string" where
  "strip s = rev (dropWhile isspace (rev (dropWhile isspace s)))"

section \<open>Deduplicator (\<^verbatim>\<open>services/discovery.py\<close>)\<close>

text \<open>
  \<^verbatim>\<open>lead.get(key, '')\<close> followed by a string method: the default is used only when the
  key is absent; a stored \<^verbatim>\<open>None\<close> is returned as it is and the call of the method on
  it raises \<^verbatim>\<open>AttributeError\<close>.
\<close>

definition get_str :: "string \<Rightarrow> string entry \<Rightarrow> py_error + string" where
  "get_str method e =
     (case e of Absent \<Rightarrow> Inr [] | Null \<Rightarrow> Inl (AttributeError method) | Val s \<Rightarrow> Inr s)"

text \<open>
  The identifier tuple of \<^verbatim>\<open>_deduplicate_leads\<close>: the business name lower-cased and
  stripped, the phone stripped. The first component is evaluated first.
\<close>

definition lead_identifier :: "lead \<Rightarrow> py_error + (string \<times> string)" where
  "lead_identifier l =
     (case get_str ''lower'' (business_name l) of
        Inl e \<Rightarrow> Inl e
      | Inr b \<Rightarrow>
          (case get_str ''strip'' (phone l) of
             Inl e \<Rightarrow> Inl e
           | Inr p \<Rightarrow> Inr (strip (lower b), strip p)))"

text \<open>\<^verbatim>\<open>any(identifier)\<close>: some component of the tuple is a non-empty string.\<close>

definition any_id :: "string \<times> string \<Rightarrow> bool" where
  "any_id k = (fst k \<noteq> [] \<or> snd k \<noteq> [])"

text \<open>
  The loop of \<^verbatim>\<open>_deduplicate_leads\<close>, with its two accumulators: the set \<^verbatim>\<open>seen\<close> and
  the list \<^verbatim>\<open>unique_leads\<close> (appended to at the end).
\<close>

fun dedup_loop ::
  "(string \<times> string) set \<Rightarrow> lead list \<Rightarrow> lead list \<Rightarrow> py_error + lead list" where
  "dedup_loop seen unique_leads [] = Inr unique_leads"
| "dedup_loop seen unique_leads (l # leads) =
     (case lead_identifier l of
        Inl e \<Rightarrow> Inl e
      | Inr k \<Rightarrow>
          if k \<notin> seen \<and> any_id k
          then dedup_loop (insert k seen) (unique_leads @ [l]) leads
          else dedup_loop seen unique_leads leads)"

definition deduplicate_leads :: "lead list \<Rightarrow> py_error + lead list" where
  "deduplicate_leads leads = dedup_loop {} [] leads"



text \<open>A lead with no entries at all, and one carrying a business name and a phone.\<close>

definition blank_lead :: lead where
  "blank_lead = \<lparr> lead_id = Absent, name = Absent, business_name = Absent, phone = Absent,
     email = Absent, website = Absent, address = Absent, enrichment_data = Absent,
     quality_score = Absent, completeness_score = Absent, confidence_score = Absent \<rparr>"

definition bakery :: lead where
  "bakery = blank_lead \<lparr> business_name := Val ''Bakery'', phone := Val ''555'' \<rparr>"

definition second_bakery :: lead where
  "second_bakery = bakery \<lparr> name := Val ''Bob'', phone := Val '' 555 '' \<rparr>"

definition contactless :: lead where
  "contactless = blank_lead \<lparr> name := Val ''Ann'', business_name := Val '' '', phone := Val [] \<rparr>"





section \<open>Floating point\<close>

text \<open>
  A Python \<^verbatim>\<open>float\<close> is a binary64 number of IEEE 754, and is modelled by the rational
  number it stands for. A float literal, a division of two integers and every arithmetic
  operation on floats give the exact result rounded to the nearest binary64 number, a tie
  going to the one with the even significand. A binary64 number has a significand of 53
  bits: from a power of two to the next, the numbers are that power divided by \<open>2 ^ 52\<close>
  apart. The limits of the exponent are left out: the scorers work on numbers between
  a sixth and a hundred, and a product with a number of platforms large enough to
  overflow would be capped by the \<^verbatim>\<open>min\<close> that follows it in both places.
\<close>

definition round_half_even :: "rat \<Rightarrow> int" where
  "round_half_even x =
     (let n = \<lfloor>x\<rfloor>; r = x - of_int n
      in if r < 1 / 2 then n else if 1 / 2 < r then n + 1 else if even n then n else n + 1)"

text \<open>For \<open>1 \<le> x\<close>: the \<open>k\<close> with \<open>2 ^ k \<le> x < 2 ^ (k + 1)\<close>.\<close>

function binade_up :: "rat \<Rightarrow> nat" where
  "binade_up x = (if 2 \<le> x then Suc (binade_up (x / 2)) else 0)"
  by pat_completeness auto
termination
proof (relation "measure (\<lambda>x. nat \<lfloor>x\<rfloor>)")
  show "wf (measure (\<lambda>x::rat. nat \<lfloor>x\<rfloor>))" by simp
next
  fix x :: rat
  assume x: "2 \<le> x"
  then have n: "(2::rat) \<le> of_int \<lfloor>x\<rfloor>" by (simp add: le_floor_iff)
  have "of_int \<lfloor>x / 2\<rfloor> \<le> x / 2" by (rule of_int_floor_le)
  moreover have "x < of_int \<lfloor>x\<rfloor> + 1" by linarith
  ultimately have "(of_int \<lfloor>x / 2\<rfloor> :: rat) < of_int \<lfloor>x\<rfloor>" using n by linarith
  then have "\<lfloor>x / 2\<rfloor> < \<lfloor>x\<rfloor>" by (simp only: of_int_less_iff)
  moreover have "0 \<le> \<lfloor>x / 2\<rfloor>" using x by simp
  ultimately show "(x / 2, x) \<in> measure (\<lambda>x. nat \<lfloor>x\<rfloor>)" using x by simp
qed

text \<open>For \<open>0 < x < 1\<close>: the \<open>k\<close> with \<open>1 \<le> x * 2 ^ k < 2\<close>.\<close>

function binade_down :: "rat \<Rightarrow> nat" where
  "binade_down x = (if 0 < x \<and> x < 1 then Suc (binade_down (2 * x)) else 0)"
  by pat_completeness auto
termination
proof (relation "measure (\<lambda>x. nat \<lfloor>1 / x\<rfloor>)")
  show "wf (measure (\<lambda>x::rat. nat \<lfloor>1 / x\<rfloor>))" by simp
next
  fix x :: rat
  assume x: "0 < x \<and> x < 1"
  define y where "y = 1 / x"
  from x have y: "1 < y" by (simp add: y_def)
  then have n: "(1::rat) \<le> of_int \<lfloor>y\<rfloor>" by (simp add: le_floor_iff)
  have half: "1 / (2 * x) = y / 2" by (simp add: y_def)
  have "of_int \<lfloor>y / 2\<rfloor> \<le> y / 2" by (rule of_int_floor_le)
  moreover have "y < of_int \<lfloor>y\<rfloor> + 1" by linarith
  ultimately have "(of_int \<lfloor>y / 2\<rfloor> :: rat) < of_int \<lfloor>y\<rfloor>" using n by linarith
  then have "\<lfloor>y / 2\<rfloor> < \<lfloor>y\<rfloor>" by (simp only: of_int_less_iff)
  moreover have "0 \<le> \<lfloor>y / 2\<rfloor>" using y by simp
  ultimately show "(2 * x, x) \<in> measure (\<lambda>x. nat \<lfloor>1 / x\<rfloor>)"
    using y by (simp add: half y_def [symmetric])
qed

declare binade_up.simps [simp del] binade_down.simps [simp del]

text \<open>The distance between neighbouring binary64 numbers around a positive \<open>x\<close>.\<close>

definition ulp :: "rat \<Rightarrow> rat" where
  "ulp x = (if 1 \<le> x then 2 ^ binade_up x / 2 ^ 52 else 1 / (2 ^ binade_down x * 2 ^ 52))"

text \<open>The binary64 number nearest to \<open>x\<close>.\<close>

definition double :: "rat \<Rightarrow> rat" where
  "double x =
     (if x = 0 then 0
      else sgn x * (of_int (round_half_even (\<bar>x\<bar> / ulp \<bar>x\<bar>)) * ulp \<bar>x\<bar>))"

section \<open>Scorers\<close>

text \<open>The three scores a scorer returns; completeness and confidence are floats.\<close>

record scores =
  score_quality :: int
  score_completeness :: rat
  score_confidence :: rat

text \<open>\<^verbatim>\<open>int(x)\<close> on a number: truncation towards zero.\<close>

definition py_int :: "rat \<Rightarrow> int" where
  "py_int x = (if 0 \<le> x then \<lfloor>x\<rfloor> else \<lceil>x\<rceil>)"

text \<open>
  \<^verbatim>\<open>len(d)\<close> of a dictionary kept as an association list: the number of its keys.
  \<^verbatim>\<open>d[k] = v\<close> replaces the value of an existing key and appends a new one.
\<close>

definition dict_len :: "('k \<times> 'v) list \<Rightarrow> nat" where
  "dict_len d = length (remdups (map fst d))"

fun dict_set :: "('k \<times> 'v) list \<Rightarrow> 'k \<Rightarrow> 'v \<Rightarrow> ('k \<times> 'v) list" where
  "dict_set [] k v = [(k, v)]"
| "dict_set ((k', v') # d) k v = (if k' = k then (k, v) # d else (k', v') # dict_set d k v)"

text \<open>Truth value of \<^verbatim>\<open>lead.get(field)\<close>: a non-empty string.\<close>

definition truthy :: "string entry \<Rightarrow> bool" where
  "truthy e = (case e of Val s \<Rightarrow> s \<noteq> [] | _ \<Rightarrow> False)"

definition base_fields :: "lead \<Rightarrow> string entry list" where
  "base_fields l = [name l, business_name l, phone l, email l, website l, address l]"

definition filled_base :: "lead \<Rightarrow> nat" where
  "filled_base l = length (filter truthy (base_fields l))"

text \<open>
  \<^verbatim>\<open>lead.get('enrichment_data', {})\<close>: the empty dictionary when the key is absent, and
  \<^verbatim>\<open>None\<close> (here \<open>None\<close>) when the key holds \<^verbatim>\<open>None\<close>.
\<close>

definition get_enrichment :: "lead \<Rightarrow> (string \<times> payload) list option" where
  "get_enrichment l =
     (case enrichment_data l of Absent \<Rightarrow> Some [] | Null \<Rightarrow> None | Val d \<Rightarrow> Some d)"

text \<open>
  \<^verbatim>\<open>PlatformEnrichmentService._calculate_enrichment_scores\<close> (the incremental scorer).
  \<^verbatim>\<open>len(enrichment_data)\<close> raises \<^verbatim>\<open>TypeError\<close> on \<^verbatim>\<open>None\<close>.
\<close>

definition calculate_enrichment_scores :: "lead \<Rightarrow> py_error + scores" where
  "calculate_enrichment_scores l =
     (case get_enrichment l of
        None \<Rightarrow> Inl TypeError
      | Some d \<Rightarrow>
          let base_completeness =
                double (of_nat (filled_base l) / of_nat (length (base_fields l)));
              enrichment_bonus = double (of_nat (dict_len d) * double (1 / 10));
              total_completeness = min 1 (double (base_completeness + enrichment_bonus));
              quality = py_int (double (total_completeness * 100));
              platform_count = dict_len d;
              confidence =
                min (double (95 / 100))
                  (double (double (6 / 10) + double (of_nat platform_count * double (1 / 10))))
          in Inr \<lparr> score_quality = quality, score_completeness = total_completeness,
                   score_confidence = confidence \<rparr>)"

text \<open>
  A stored lead, the row of the \<^verbatim>\<open>leads\<close> table (\<^verbatim>\<open>models.Lead\<close>); every column but the
  keys is nullable.
\<close>

record Lead =
  Lead_id :: nat
  Lead_job_id :: nat
  Lead_name :: "string option"
  Lead_business_name :: "string option"
  Lead_phone :: "string option"
  Lead_email :: "string option"
  Lead_website :: "string option"
  Lead_address :: "string option"
  Lead_enrichment_data :: "(string \<times> payload) list option"
  Lead_quality_score :: "int option"
  Lead_completeness_score :: "rat option"
  Lead_confidence_score :: "rat option"

text \<open>Truth value of \<^verbatim>\<open>field and field.strip()\<close> on a nullable column.\<close>

definition filled :: "string option \<Rightarrow> bool" where
  "filled f = (case f of None \<Rightarrow> False | Some s \<Rightarrow> s \<noteq> [] \<and> strip s \<noteq> [])"

definition Lead_fields :: "Lead \<Rightarrow> string option list" where
  "Lead_fields r = [Lead_name r, Lead_business_name r, Lead_phone r,
                     Lead_email r, Lead_website r, Lead_address r]"

definition filled_fields :: "Lead \<Rightarrow> nat" where
  "filled_fields r = length (filter filled (Lead_fields r))"

text \<open>Number of platforms in a stored lead's enrichment data (none when it is null).\<close>

definition Lead_platforms :: "Lead \<Rightarrow> nat" where
  "Lead_platforms r = (case Lead_enrichment_data r of None \<Rightarrow> 0 | Some d \<Rightarrow> dict_len d)"

text \<open>
  The body of the loop of \<^verbatim>\<open>ScrapingOrchestrator._calculate_quality_scores\<close> (the final
  scorer), on one stored lead. \<^verbatim>\<open>if lead.enrichment_data\<close> holds for a non-empty dictionary.
\<close>

definition quality_scores_of :: "Lead \<Rightarrow> scores" where
  "quality_scores_of r =
     (let completeness = double (of_nat (filled_fields r) / of_nat (length (Lead_fields r)));
          quality = py_int (double (completeness * 100));
          quality =
            (case Lead_enrichment_data r of
               None \<Rightarrow> quality
             | Some d \<Rightarrow>
                 if d \<noteq> [] then min 100 (quality + int (min (dict_len d) 20)) else quality)
      in \<lparr> score_quality = quality, score_completeness = completeness,
            score_confidence = (if quality > 70 then double (8 / 10) else double (6 / 10)) \<rparr>)"

definition score_lead :: "Lead \<Rightarrow> Lead" where
  "score_lead r =
     (let s = quality_scores_of r
      in r \<lparr> Lead_completeness_score := Some (score_completeness s),
              Lead_quality_score := Some (score_quality s),
              Lead_confidence_score := Some (score_confidence s) \<rparr>)"

text \<open>
  The scorer as the specification words it: completeness is the filled share plus a
  tenth per platform, capped at one; quality is that completeness times 100, rounded,
  plus one point per platform up to twenty, capped at 100.
\<close>

definition spec_total_completeness :: "nat \<Rightarrow> nat \<Rightarrow> rat" where
  "spec_total_completeness n_filled n_platforms =
     min 1 (of_nat n_filled / 6 + of_nat n_platforms * (1 / 10))"

definition spec_quality_score :: "nat \<Rightarrow> nat \<Rightarrow> int" where
  "spec_quality_score n_filled n_platforms =
     min 100 (round (spec_total_completeness n_filled n_platforms * 100)
              + int (min n_platforms 20))"

text \<open>A lead with three contact fields and two platforms, as a dictionary and as a row.\<close>

definition florist :: lead where
  "florist = blank_lead \<lparr> lead_id := Val 7, name := Val ''Eve'', business_name := Val ''Florist'',
     phone := Val ''556'',
     enrichment_data := Val [(''linkedin'', [(''headline'', ''Owner'')]),
                             (''facebook'', [(''page_likes'', ''50'')])] \<rparr>"

definition florist_row :: Lead where
  "florist_row = \<lparr> Lead_id = 7, Lead_job_id = 1, Lead_name = Some ''Eve'',
     Lead_business_name = Some ''Florist'', Lead_phone = Some ''556'', Lead_email = None,
     Lead_website = None, Lead_address = None,
     Lead_enrichment_data = Some [(''linkedin'', [(''headline'', ''Owner'')]),
                                  (''facebook'', [(''page_likes'', ''50'')])],
     Lead_quality_score = Some 50, Lead_completeness_score = None,
     Lead_confidence_score = None \<rparr>"

section \<open>Enrichment coordinator (\<^verbatim>\<open>services/enrichment.py\<close>)\<close>

record config =
  depth :: nat
  config_fields :: "string list"
  concurrent_requests :: nat

text \<open>The table \<^verbatim>\<open>self.intensity_configs\<close> built by \<^verbatim>\<open>__init__\<close>.\<close>

fun intensity_configs :: "ScrapingIntensity \<Rightarrow> config" where
  "intensity_configs BASIC =
     \<lparr> depth = 1, config_fields = [''basic_info''], concurrent_requests = 5 \<rparr>"
| "intensity_configs STANDARD =
     \<lparr> depth = 2, config_fields = [''basic_info'', ''contact_info'', ''social_profiles''],
       concurrent_requests = 3 \<rparr>"
| "intensity_configs PREMIUM =
     \<lparr> depth = 3,
       config_fields = [''basic_info'', ''contact_info'', ''social_profiles'', ''content_analysis'',
                 ''network_data''],
       concurrent_requests = 2 \<rparr>"

text \<open>\<^verbatim>\<open>platform.value\<close>, and the keys of \<^verbatim>\<open>self.enrichers\<close>.\<close>

fun platform_value :: "PlatformType \<Rightarrow> string" where
  "platform_value GOOGLE_MAPS = ''google_maps''"
| "platform_value GOOGLE_BUSINESS = ''google_business''"
| "platform_value LINKEDIN = ''linkedin''"
| "platform_value FACEBOOK = ''facebook''"
| "platform_value INSTAGRAM = ''instagram''"
| "platform_value GOOGLE_SEARCH = ''google_search''"

fun in_enrichers :: "PlatformType \<Rightarrow> bool" where
  "in_enrichers LINKEDIN = True"
| "in_enrichers FACEBOOK = True"
| "in_enrichers INSTAGRAM = True"
| "in_enrichers GOOGLE_SEARCH = True"
| "in_enrichers _ = False"

text \<open>
  A platform's \<^verbatim>\<open>enrich(lead, fields, depth)\<close> is a provider outside the coordinator: it
  returns a payload or raises. The coordinator is parameterised by it.
\<close>

type_synonym enricher =
  "PlatformType \<Rightarrow> lead \<Rightarrow> string list \<Rightarrow> nat \<Rightarrow> py_error + payload"

text \<open>
  \<^verbatim>\<open>lead.copy()\<close> is shallow: when the lead holds a dictionary under
  \<^verbatim>\<open>enrichment_data\<close>, the dictionary the loop writes to is the one the original lead
  holds, so the lead handed to the next platform shows the payloads stored so far.
\<close>

definition lead_as_seen :: "lead \<Rightarrow> (string \<times> payload) list option \<Rightarrow> lead" where
  "lead_as_seen l ed =
     (case enrichment_data l of
        Val _ \<Rightarrow> (case ed of Some d \<Rightarrow> l \<lparr> enrichment_data := Val d \<rparr> | None \<Rightarrow> l)
      | _ \<Rightarrow> l)"

text \<open>
  The platform loop of \<^verbatim>\<open>_enrich_single_lead\<close>. Everything inside its \<^verbatim>\<open>try\<close> that
  raises is caught: the provider's exception, and the \<^verbatim>\<open>TypeError\<close> of the item
  assignment when \<^verbatim>\<open>enrichment_data\<close> is \<^verbatim>\<open>None\<close>.
\<close>

fun enrich_platforms ::
  "enricher \<Rightarrow> config \<Rightarrow> lead \<Rightarrow> (string \<times> payload) list option \<Rightarrow> PlatformType list
     \<Rightarrow> (string \<times> payload) list option" where
  "enrich_platforms enrich cfg l ed [] = ed"
| "enrich_platforms enrich cfg l ed (p # ps) =
     (if in_enrichers p
      then (case enrich p (lead_as_seen l ed) (config_fields cfg) (depth cfg) of
              Inl e \<Rightarrow> enrich_platforms enrich cfg l ed ps
            | Inr platform_data \<Rightarrow>
                (case ed of
                   None \<Rightarrow> enrich_platforms enrich cfg l None ps
                 | Some d \<Rightarrow>
                     enrich_platforms enrich cfg l
                       (Some (dict_set d (platform_value p) platform_data)) ps))
      else enrich_platforms enrich cfg l ed ps)"

definition set_enrichment :: "lead \<Rightarrow> (string \<times> payload) list option \<Rightarrow> lead" where
  "set_enrichment l ed =
     l \<lparr> enrichment_data := (case ed of None \<Rightarrow> Null | Some d \<Rightarrow> Val d) \<rparr>"

text \<open>
  \<^verbatim>\<open>_enrich_single_lead\<close>: the scorer runs outside the \<^verbatim>\<open>try\<close>, so its
  \<^verbatim>\<open>TypeError\<close> leaves the coroutine.
\<close>

definition enrich_single_lead ::
  "enricher \<Rightarrow> lead \<Rightarrow> PlatformType list \<Rightarrow> config \<Rightarrow> py_error + lead" where
  "enrich_single_lead enrich l platforms cfg =
     (let enriched_lead =
            set_enrichment l (enrich_platforms enrich cfg l (get_enrichment l) platforms)
      in case calculate_enrichment_scores enriched_lead of
           Inl e \<Rightarrow> Inl e
         | Inr s \<Rightarrow>
             Inr (enriched_lead \<lparr> quality_score := Val (score_quality s),
                                  completeness_score := Val (score_completeness s),
                                  confidence_score := Val (score_confidence s) \<rparr>))"

text \<open>
  A coroutine \<^verbatim>\<open>self._enrich_single_lead(lead, platforms, config)\<close> that has been created
  and not yet awaited, and what it gives when it runs.
\<close>

type_synonym task = "lead \<times> PlatformType list \<times> config"

definition run_task :: "enricher \<Rightarrow> task \<Rightarrow> py_error + lead" where
  "run_task enrich t = (case t of (l, platforms, cfg) \<Rightarrow> enrich_single_lead enrich l platforms cfg)"

text \<open>
  What the coordinator asks of the event loop: \<^verbatim>\<open>asyncio.gather\<close> over a list of
  coroutines, which the loop then runs concurrently, and \<^verbatim>\<open>asyncio.sleep\<close> for a number
  of seconds.
\<close>

datatype event = Gather "task list" | Sleep nat

text \<open>
  \<^verbatim>\<open>asyncio.gather(*batch_tasks, return_exceptions=True)\<close>: every coroutine runs to its
  result or to its exception, and the list holds them in the order of the arguments. A
  coroutine reads and writes its own lead only, so what it gives does not depend on how
  the loop interleaves it with the others.
\<close>

definition gather :: "enricher \<Rightarrow> task list \<Rightarrow> (py_error + lead) list" where
  "gather enrich batch_tasks = map (run_task enrich) batch_tasks"

text \<open>
  \<^verbatim>\<open>for i in range(0, len(leads), batch_size): batch = leads[i:i + batch_size]\<close>, from
  index \<open>i\<close> on.
\<close>

function batch_slices :: "nat \<Rightarrow> 'a list \<Rightarrow> nat \<Rightarrow> 'a list list" where
  "batch_slices batch_size leads i =
     (if batch_size = 0 \<or> length leads \<le> i then []
      else take batch_size (drop i leads) # batch_slices batch_size leads (i + batch_size))"
  by pat_completeness auto
termination
  by (relation "measure (\<lambda>(batch_size, leads, i). length leads - i)") auto

declare batch_slices.simps [simp del]

text \<open>The loop over \<^verbatim>\<open>batch_results\<close>: only the dictionaries are kept.\<close>

fun collect :: "(py_error + lead) list \<Rightarrow> lead list" where
  "collect [] = []"
| "collect (Inr d # batch_results) = d # collect batch_results"
| "collect (Inl e # batch_results) = collect batch_results"

fun process_batches ::
  "enricher \<Rightarrow> PlatformType list \<Rightarrow> config \<Rightarrow> lead list list \<Rightarrow> event list \<times> lead list" where
  "process_batches enrich platforms cfg [] = ([], [])"
| "process_batches enrich platforms cfg (batch # rest) =
     (let batch_tasks = map (\<lambda>l. (l, platforms, cfg)) batch;
          batch_results = gather enrich batch_tasks;
          (events, enriched_leads) = process_batches enrich platforms cfg rest
      in (Gather batch_tasks # Sleep 1 # events, collect batch_results @ enriched_leads))"

text \<open>\<^verbatim>\<open>enrich_leads\<close>: the events it asks for, in order, and the list it returns.\<close>

definition enrich_leads ::
  "enricher \<Rightarrow> lead list \<Rightarrow> PlatformType list \<Rightarrow> ScrapingIntensity
     \<Rightarrow> py_error + (event list \<times> lead list)" where
  "enrich_leads enrich leads platforms intensity =
     (let cfg = intensity_configs intensity;
          batch_size = concurrent_requests cfg
      in if batch_size = 0 then Inl ValueError
         else Inr (process_batches enrich platforms cfg (batch_slices batch_size leads 0)))"

text \<open>A provider where LinkedIn always fails and every other platform answers.\<close>

definition linkedin_down :: enricher where
  "linkedin_down p l fs d =
     (if p = LINKEDIN then Inl (RuntimeError ''timeout'') else Inr [(''last_updated'', ''2024-01-15'')])"

definition null_enrichment :: lead where
  "null_enrichment = bakery \<lparr> lead_id := Val 9, enrichment_data := Null \<rparr>"

section \<open>Job store\<close>

text \<open>
  The request parameters the pipeline reads from \<^verbatim>\<open>job.request_params\<close>, and the row of
  the \<^verbatim>\<open>scraping_jobs\<close> table. Timestamps are natural numbers. Columns and lead entries
  that the pipeline only copies (industry of a lead, job title, source platform and URL)
  are left out.
\<close>

record params =
  param_industry :: string
  param_location :: string
  param_max_results :: nat
  param_platforms :: "PlatformType list"
  param_intensity :: ScrapingIntensity

record ScrapingJob =
  request_params :: params
  status :: JobStatus
  progress :: int
  results_count :: nat
  error_message :: "string option"
  started_at :: "nat option"
  completed_at :: "nat option"

text \<open>
  The \<^verbatim>\<open>UPDATE\<close> statements the orchestrator sends for a job row:
  \<^verbatim>\<open>_update_job_status\<close> (only the arguments that are not \<^verbatim>\<open>None\<close> are written besides
  the status), \<^verbatim>\<open>_update_job_progress\<close>, and the result count of \<^verbatim>\<open>_save_leads\<close>.
\<close>

datatype job_update =
  SetStatus JobStatus "string option" "nat option" "nat option"
| SetProgress int
| SetResultsCount nat

fun apply_update :: "job_update \<Rightarrow> ScrapingJob \<Rightarrow> ScrapingJob" where
  "apply_update (SetStatus st msg started completed) job =
     job \<lparr> status := st,
           error_message := (case msg of None \<Rightarrow> error_message job | Some m \<Rightarrow> Some m),
           started_at := (case started of None \<Rightarrow> started_at job | Some t \<Rightarrow> Some t),
           completed_at := (case completed of None \<Rightarrow> completed_at job | Some t \<Rightarrow> Some t) \<rparr>"
| "apply_update (SetProgress p) job = job \<lparr> progress := p \<rparr>"
| "apply_update (SetResultsCount n) job = job \<lparr> results_count := n \<rparr>"

text \<open>
  The store: the two tables, the next free keys (\<^verbatim>\<open>uuid4\<close> keys are fresh), and the
  job-row statements committed so far, in order.
\<close>

record database =
  jobs_table :: "nat \<rightharpoonup> ScrapingJob"
  leads_table :: "Lead list"
  next_job_id :: nat
  next_lead_id :: nat
  session_log :: "(nat \<times> job_update) list"

text \<open>\<^verbatim>\<open>update(ScrapingJob).where(ScrapingJob.id == job_id).values(...)\<close>, committed.\<close>

definition execute :: "nat \<Rightarrow> job_update \<Rightarrow> database \<Rightarrow> database" where
  "execute job_id u db =
     db \<lparr> jobs_table :=
            (case jobs_table db job_id of
               None \<Rightarrow> jobs_table db
             | Some job \<Rightarrow> (jobs_table db)(job_id \<mapsto> apply_update u job)),
          session_log := session_log db @ [(job_id, u)] \<rparr>"

text \<open>The progress values among the committed statements of one job, in order.\<close>

fun progress_writes :: "nat \<Rightarrow> (nat \<times> job_update) list \<Rightarrow> int list" where
  "progress_writes job_id [] = []"
| "progress_writes job_id ((j, SetProgress p) # stmts) =
     (if j = job_id then p # progress_writes job_id stmts else progress_writes job_id stmts)"
| "progress_writes job_id ((j, u) # stmts) = progress_writes job_id stmts"

section \<open>Discovery (\<^verbatim>\<open>EntryPointDiscoveryService.discover\<close>)\<close>

text \<open>
  The places of \<^verbatim>\<open>process_job\<close> that talk to the database session, each of which can
  raise.
\<close>

datatype site =
  SelectJob | MarkProcessing | Progress int | SaveLeads | SaveCount | UpdateEnrichment
| Scoring | Finalize | MarkFailed

text \<open>
  Everything outside the orchestrator: the two discovery providers (called with the
  request and the number of results wanted), the enrichment provider, the exceptions the
  database session raises (by place, with their message), and the clock readings of
  \<^verbatim>\<open>datetime.utcnow()\<close> at the three places that read it.
\<close>

record environment =
  google_maps_search :: "params \<Rightarrow> nat \<Rightarrow> py_error + lead list"
  google_business_search :: "params \<Rightarrow> nat \<Rightarrow> py_error + lead list"
  platform_enrich :: enricher
  db_fault :: "site \<Rightarrow> string option"
  started_time :: nat
  completed_time :: nat
  failed_time :: nat

text \<open>
  \<^verbatim>\<open>discover\<close>: a provider's exception is logged and its leads are missing; the secondary
  provider is asked only when the primary one under-filled; the deduplicator runs outside
  both \<^verbatim>\<open>try\<close> blocks.
\<close>

definition discover :: "environment \<Rightarrow> params \<Rightarrow> py_error + lead list" where
  "discover env ps =
     (let max_results = param_max_results ps;
          all_leads =
            (case google_maps_search env ps max_results of
               Inl e \<Rightarrow> []
             | Inr google_leads \<Rightarrow> google_leads);
          all_leads =
            (if length all_leads < max_results
             then (case google_business_search env ps (max_results - length all_leads) of
                     Inl e \<Rightarrow> all_leads
                   | Inr business_leads \<Rightarrow> all_leads @ business_leads)
             else all_leads)
      in case deduplicate_leads all_leads of
           Inl e \<Rightarrow> Inl e
         | Inr deduplicated_leads \<Rightarrow> Inr (take max_results deduplicated_leads))"

section \<open>Orchestrator (\<^verbatim>\<open>services/orchestrator.py\<close>)\<close>

record orchestrator =
  active_jobs :: "nat list"
  max_concurrent_jobs :: nat

text \<open>\<^verbatim>\<open>ScrapingOrchestrator.__init__\<close> and \<^verbatim>\<open>health_check\<close>.\<close>

definition new_orchestrator :: orchestrator where
  "new_orchestrator = \<lparr> active_jobs = [], max_concurrent_jobs = 5 \<rparr>"

definition health_check :: "orchestrator \<Rightarrow> nat \<times> nat \<times> string" where
  "health_check orch = (length (active_jobs orch), max_concurrent_jobs orch, ''healthy'')"

text \<open>\<^verbatim>\<open>d.get(key)\<close> as a nullable column value.\<close>

definition nullable :: "'a entry \<Rightarrow> 'a option" where
  "nullable e = (case e of Val v \<Rightarrow> Some v | _ \<Rightarrow> None)"

text \<open>The \<^verbatim>\<open>Lead(...)\<close> constructor call of \<^verbatim>\<open>_save_leads\<close>, with the key the row gets.\<close>

definition new_Lead :: "nat \<Rightarrow> nat \<Rightarrow> lead \<Rightarrow> Lead" where
  "new_Lead i job_id lead_data =
     \<lparr> Lead_id = i, Lead_job_id = job_id,
       Lead_name = nullable (name lead_data),
       Lead_business_name = nullable (business_name lead_data),
       Lead_phone = nullable (phone lead_data),
       Lead_email = nullable (email lead_data),
       Lead_website = nullable (website lead_data),
       Lead_address = nullable (address lead_data),
       Lead_enrichment_data = get_enrichment lead_data,
       Lead_quality_score =
         (case quality_score lead_data of Absent \<Rightarrow> Some 50 | Null \<Rightarrow> None | Val q \<Rightarrow> Some q),
       Lead_completeness_score = nullable (completeness_score lead_data),
       Lead_confidence_score = nullable (confidence_score lead_data) \<rparr>"

definition insert_leads :: "nat \<Rightarrow> lead list \<Rightarrow> database \<Rightarrow> database" where
  "insert_leads job_id leads_data db =
     db \<lparr> leads_table :=
            leads_table db
            @ map (\<lambda>(k, lead_data). new_Lead (next_lead_id db + k) job_id lead_data)
                (zip [0 ..< length leads_data] leads_data),
          next_lead_id := next_lead_id db + length leads_data \<rparr>"

text \<open>
  \<^verbatim>\<open>_update_leads_enrichment\<close>: one \<^verbatim>\<open>UPDATE\<close> per returned lead that has an \<^verbatim>\<open>id\<close> key;
  a \<^verbatim>\<open>None\<close> under \<^verbatim>\<open>id\<close> matches no row.
\<close>

definition update_Lead :: "lead \<Rightarrow> Lead \<Rightarrow> Lead" where
  "update_Lead lead_data r =
     r \<lparr> Lead_enrichment_data := get_enrichment lead_data,
         Lead_quality_score := nullable (quality_score lead_data),
         Lead_completeness_score := nullable (completeness_score lead_data),
         Lead_confidence_score := nullable (confidence_score lead_data) \<rparr>"

fun update_leads_enrichment :: "lead list \<Rightarrow> Lead list \<Rightarrow> Lead list" where
  "update_leads_enrichment [] rows = rows"
| "update_leads_enrichment (lead_data # enriched_leads) rows =
     update_leads_enrichment enriched_leads
       (case lead_id lead_data of
          Val i \<Rightarrow> map (\<lambda>r. if Lead_id r = i then update_Lead lead_data r else r) rows
        | _ \<Rightarrow> rows)"

text \<open>\<^verbatim>\<open>_calculate_quality_scores\<close>: every lead of the job is scored again.\<close>

definition calculate_quality_scores :: "nat \<Rightarrow> Lead list \<Rightarrow> Lead list" where
  "calculate_quality_scores job_id rows =
     map (\<lambda>r. if Lead_job_id r = job_id then score_lead r else r) rows"

text \<open>
  The local variables of \<^verbatim>\<open>process_job\<close> that one statement leaves to the next, together
  with the store the session writes to.
\<close>

record frame =
  frame_db :: database
  frame_initial_leads :: "lead list"
  frame_enriched_leads :: "lead list"

text \<open>
  A statement of the \<^verbatim>\<open>try\<close> block either completes or raises. A statement that talks to
  the session raises what the environment says for its place and then changes nothing.
\<close>

type_synonym step = "frame \<Rightarrow> py_error option \<times> frame"

definition db_step :: "environment \<Rightarrow> site \<Rightarrow> (frame \<Rightarrow> database \<Rightarrow> database) \<Rightarrow> step" where
  "db_step env s f fr =
     (case db_fault env s of
        Some msg \<Rightarrow> (Some (RuntimeError msg), fr)
      | None \<Rightarrow> (None, fr \<lparr> frame_db := f fr (frame_db fr) \<rparr>))"

definition update_job_progress :: "environment \<Rightarrow> nat \<Rightarrow> int \<Rightarrow> step" where
  "update_job_progress env job_id p =
     db_step env (Progress p) (\<lambda>fr. execute job_id (SetProgress p))"

definition discovery_step :: "environment \<Rightarrow> params \<Rightarrow> step" where
  "discovery_step env ps fr =
     (case discover env ps of
        Inl e \<Rightarrow> (Some e, fr)
      | Inr found \<Rightarrow> (None, fr \<lparr> frame_initial_leads := found \<rparr>))"

text \<open>\<^verbatim>\<open>_save_leads\<close>: the bulk insert, then the result count.\<close>

definition save_leads :: "environment \<Rightarrow> nat \<Rightarrow> step list" where
  "save_leads env job_id =
     [db_step env SaveLeads (\<lambda>fr. insert_leads job_id (frame_initial_leads fr)),
      db_step env SaveCount
        (\<lambda>fr. execute job_id (SetResultsCount (length (frame_initial_leads fr))))]"

definition enrichment_step :: "environment \<Rightarrow> params \<Rightarrow> step" where
  "enrichment_step env ps fr =
     (case enrich_leads (platform_enrich env) (frame_initial_leads fr)
             (filter (\<lambda>p. p \<noteq> GOOGLE_MAPS) (param_platforms ps)) (param_intensity ps) of
        Inl e \<Rightarrow> (Some e, fr)
      | Inr (events, enriched) \<Rightarrow> (None, fr \<lparr> frame_enriched_leads := enriched \<rparr>))"

definition update_enrichment_step :: "environment \<Rightarrow> step" where
  "update_enrichment_step env =
     db_step env UpdateEnrichment
       (\<lambda>fr db. db \<lparr> leads_table :=
                       update_leads_enrichment (frame_enriched_leads fr) (leads_table db) \<rparr>)"

definition scoring_step :: "environment \<Rightarrow> nat \<Rightarrow> step" where
  "scoring_step env job_id =
     db_step env Scoring
       (\<lambda>fr db. db \<lparr> leads_table := calculate_quality_scores job_id (leads_table db) \<rparr>)"

text \<open>\<^verbatim>\<open>_finalize_job\<close>.\<close>

definition finalize_job :: "environment \<Rightarrow> nat \<Rightarrow> step" where
  "finalize_job env job_id =
     db_step env Finalize
       (\<lambda>fr. execute job_id (SetStatus COMPLETED None None (Some (completed_time env))))"

fun run_steps :: "step list \<Rightarrow> frame \<Rightarrow> py_error option \<times> frame" where
  "run_steps [] fr = (None, fr)"
| "run_steps (s # ss) fr =
     (case s fr of
        (None, fr') \<Rightarrow> run_steps ss fr'
      | (Some e, fr') \<Rightarrow> (Some e, fr'))"

text \<open>
  The statements of the \<^verbatim>\<open>try\<close> block after the job row has been read: those up to the
  first call of a provider, and those from the discovery call on.
\<close>

definition first_steps :: "environment \<Rightarrow> nat \<Rightarrow> step list" where
  "first_steps env job_id =
     [db_step env MarkProcessing
        (\<lambda>fr. execute job_id (SetStatus PROCESSING None (Some (started_time env)) None)),
      update_job_progress env job_id 10]"

definition later_steps :: "environment \<Rightarrow> nat \<Rightarrow> params \<Rightarrow> step list" where
  "later_steps env job_id ps =
     [discovery_step env ps, update_job_progress env job_id 30]
     @ save_leads env job_id
     @ [update_job_progress env job_id 40]
     @ (if length (param_platforms ps) > 1 \<or> param_intensity ps \<noteq> BASIC
        then [enrichment_step env ps, update_enrichment_step env,
              update_job_progress env job_id 80]
        else [])
     @ [scoring_step env job_id, update_job_progress env job_id 90,
        finalize_job env job_id, update_job_progress env job_id 100]"

text \<open>\<^verbatim>\<open>str(e)\<close>; the messages of the interpreter put names between apostrophes.\<close>

definition quoted :: "string \<Rightarrow> string" where
  "quoted s = CHR 0x27 # s @ [CHR 0x27]"

fun str_error :: "py_error \<Rightarrow> string" where
  "str_error (AttributeError method) =
     quoted ''NoneType'' @ '' object has no attribute '' @ quoted method"
| "str_error TypeError = ''object of type '' @ quoted ''NoneType'' @ '' has no len()''"
| "str_error ValueError = ''range() arg 3 must not be zero''"
| "str_error (RuntimeError msg) = msg"

definition new_frame :: "database \<Rightarrow> frame" where
  "new_frame db = \<lparr> frame_db = db, frame_initial_leads = [], frame_enriched_leads = [] \<rparr>"

text \<open>
  The \<^verbatim>\<open>try\<close> block of \<^verbatim>\<open>process_job\<close>: the job row is read; a missing job returns at
  once; otherwise the statements run until one raises.
\<close>

definition try_block :: "environment \<Rightarrow> nat \<Rightarrow> (params \<Rightarrow> step list) \<Rightarrow> database
    \<Rightarrow> py_error option \<times> frame" where
  "try_block env job_id body db =
     (case db_fault env SelectJob of
        Some msg \<Rightarrow> (Some (RuntimeError msg), new_frame db)
      | None \<Rightarrow>
          (case jobs_table db job_id of
             None \<Rightarrow> (None, new_frame db)
           | Some job \<Rightarrow> run_steps (body (request_params job)) (new_frame db)))"

text \<open>
  The \<^verbatim>\<open>except Exception\<close> clause: the failure is logged and written to the job row, and
  nothing is raised again; only an exception of that write itself leaves the clause.
\<close>

definition except_clause :: "environment \<Rightarrow> nat \<Rightarrow> py_error \<Rightarrow> database
    \<Rightarrow> py_error option \<times> database" where
  "except_clause env job_id e db =
     (case db_fault env MarkFailed of
        Some msg \<Rightarrow> (Some (RuntimeError msg), db)
      | None \<Rightarrow>
          (None, execute job_id
                   (SetStatus FAILED (Some (str_error e)) None (Some (failed_time env))) db))"

text \<open>
  \<^verbatim>\<open>process_job\<close>: the exception that leaves it (if any), the orchestrator after the
  \<^verbatim>\<open>finally\<close> clause, and the store.
\<close>

definition process_job :: "environment \<Rightarrow> nat \<Rightarrow> orchestrator \<Rightarrow> database
    \<Rightarrow> py_error option \<times> orchestrator \<times> database" where
  "process_job env job_id orch db =
     (let orch' = orch \<lparr> active_jobs := removeAll job_id (active_jobs orch) \<rparr>
      in case try_block env job_id
                (\<lambda>ps. first_steps env job_id @ later_steps env job_id ps) db of
           (None, fr) \<Rightarrow> (None, orch', frame_db fr)
         | (Some e, fr) \<Rightarrow>
             (case except_clause env job_id e (frame_db fr) of
                (raised, db') \<Rightarrow> (raised, orch', db')))"

text \<open>\<^verbatim>\<open>ScrapingOrchestrator.cancel_job\<close>: it acts only on a job in \<^verbatim>\<open>active_jobs\<close>.\<close>

definition orchestrator_cancel_job :: "nat \<Rightarrow> nat \<Rightarrow> orchestrator \<Rightarrow> database
    \<Rightarrow> bool \<times> orchestrator \<times> database" where
  "orchestrator_cancel_job now job_id orch db =
     (if job_id \<in> set (active_jobs orch)
      then (True, orch \<lparr> active_jobs := removeAll job_id (active_jobs orch) \<rparr>,
            execute job_id (SetStatus CANCELLED None None (Some now)) db)
      else (False, orch, db))"

section \<open>The task of the external executor (\<^verbatim>\<open>tasks/scraping_tasks.py\<close>)\<close>

text \<open>
  \<^verbatim>\<open>process_job_pipeline\<close> ends by returning its result dictionary, whose status is
  \<^verbatim>\<open>"completed"\<close>, or by raising \<^verbatim>\<open>self.retry(exc=e)\<close> after marking the job failed.
\<close>

datatype task_result = Returned string | Retry py_error

definition process_job_pipeline :: "environment \<Rightarrow> nat \<Rightarrow> database \<Rightarrow> task_result \<times> database" where
  "process_job_pipeline env job_id db =
     (case process_job env job_id new_orchestrator db of
        (None, orch, db') \<Rightarrow> (Returned ''completed'', db')
      | (Some e, orch, db') \<Rightarrow>
          (Retry e,
           execute job_id
             (SetStatus FAILED (Some (str_error e)) None (Some (failed_time env))) db'))"

section \<open>Routes (\<^verbatim>\<open>api/routes.py\<close>)\<close>

text \<open>
  The process: the store, the orchestrator of the module, the background tasks added and
  not yet started, and the \<^verbatim>\<open>process_job\<close> coroutines that wait for a provider.
\<close>

record system =
  sys_db :: database
  sys_orchestrator :: orchestrator
  background_tasks :: "nat list"
  waiting :: "nat list"

definition new_database :: database where
  "new_database = \<lparr> jobs_table = Map.empty, leads_table = [], next_job_id = 0,
                     next_lead_id = 0, session_log = [] \<rparr>"

definition new_system :: system where
  "new_system = \<lparr> sys_db = new_database, sys_orchestrator = new_orchestrator,
                   background_tasks = [], waiting = [] \<rparr>"

text \<open>
  \<^verbatim>\<open>create_scraping_job\<close>: the job row is inserted with status \<^verbatim>\<open>QUEUED\<close> and the column
  defaults, and \<^verbatim>\<open>process_job\<close> is added as a background task, whatever is running.
\<close>

definition queued_job :: "params \<Rightarrow> ScrapingJob" where
  "queued_job request =
     \<lparr> request_params = request, status = QUEUED, progress = 0, results_count = 0,
       error_message = None, started_at = None, completed_at = None \<rparr>"

definition create_scraping_job :: "params \<Rightarrow> system \<Rightarrow> system" where
  "create_scraping_job request sys =
     (let db = sys_db sys; job_id = next_job_id db
      in sys \<lparr> sys_db := db \<lparr> jobs_table := (jobs_table db)(job_id \<mapsto> queued_job request),
                               next_job_id := Suc job_id \<rparr>,
               background_tasks := background_tasks sys @ [job_id] \<rparr>)"

text \<open>
  A background task starts: \<^verbatim>\<open>process_job\<close> runs up to its first call of a provider,
  where the coroutine waits (or, when a statement raises before that, through its
  \<^verbatim>\<open>except\<close> clause to its end).
\<close>

definition start_task :: "environment \<Rightarrow> nat \<Rightarrow> system \<Rightarrow> system" where
  "start_task env job_id sys =
     (let rest = removeAll job_id (background_tasks sys)
      in case try_block env job_id (\<lambda>ps. first_steps env job_id) (sys_db sys) of
           (None, fr) \<Rightarrow>
             sys \<lparr> sys_db := frame_db fr, background_tasks := rest,
                   waiting := waiting sys @ [job_id] \<rparr>
         | (Some e, fr) \<Rightarrow>
             sys \<lparr> sys_db := snd (except_clause env job_id e (frame_db fr)),
                   background_tasks := rest \<rparr>)"

text \<open>The number of jobs with keys below \<open>n\<close> whose status is \<^verbatim>\<open>PROCESSING\<close>.\<close>

definition processing_jobs :: "database \<Rightarrow> nat list" where
  "processing_jobs db =
     filter (\<lambda>j. map_option status (jobs_table db j) = Some PROCESSING) [0 ..< next_job_id db]"

text \<open>
  \<^verbatim>\<open>cancel_job\<close> of the routes. The error carries the status code and what the detail
  text names: the missing job, the status that cannot be cancelled, or the message of the
  exception of the commit.
\<close>

datatype detail = JobNotFound nat | CannotCancelStatus JobStatus | FailedToCancel string

datatype http_error = HTTPException nat detail

definition cancel_job :: "string option \<Rightarrow> nat \<Rightarrow> nat \<Rightarrow> database \<Rightarrow> (http_error + nat) \<times> database" where
  "cancel_job commit_fault now job_id db =
     (case jobs_table db job_id of
        None \<Rightarrow> (Inl (HTTPException 404 (JobNotFound job_id)), db)
      | Some job \<Rightarrow>
          if status job \<in> {COMPLETED, FAILED, CANCELLED}
          then (Inl (HTTPException 400 (CannotCancelStatus (status job))), db)
          else (case commit_fault of
                  Some msg \<Rightarrow> (Inl (HTTPException 500 (FailedToCancel msg)), db)
                | None \<Rightarrow>
                    (Inr job_id,
                     db \<lparr> jobs_table :=
                            (jobs_table db)(job_id \<mapsto>
                               job \<lparr> status := CANCELLED, completed_at := Some now \<rparr>) \<rparr>)))"

text \<open>Sample requests, environments and stores.\<close>

definition bakery_request :: params where
  "bakery_request = \<lparr> param_industry = ''bakery'', param_location = ''Boston, MA'',
     param_max_results = 10, param_platforms = [GOOGLE_MAPS, FACEBOOK],
     param_intensity = STANDARD \<rparr>"

definition calm :: environment where
  "calm = \<lparr> google_maps_search = (\<lambda>ps n. Inr [bakery, contactless, second_bakery]),
     google_business_search = (\<lambda>ps n. Inl (RuntimeError ''unreachable'')),
     platform_enrich = linkedin_down,
     db_fault = (\<lambda>s. None),
     started_time = 100, completed_time = 200, failed_time = 150 \<rparr>"

definition insert_fails :: environment where
  "insert_fails = calm \<lparr> db_fault := (\<lambda>s. if s = SaveLeads then Some ''db down'' else None) \<rparr>"

definition one_job :: database where
  "one_job = sys_db (create_scraping_job bakery_request new_system)"

definition six_started :: system where
  "six_started =
     fold (start_task calm) [0 ..< 6] (((create_scraping_job bakery_request) ^^ 6) new_system)"

text \<open>
  Stored rows: of the lead whose enrichment data is \<^verbatim>\<open>None\<close>, of a lead with a name and
  nothing else, and one whose name is a no-break space and whose phone is a next-line
  character.
\<close>

definition null_enrichment_row :: Lead where
  "null_enrichment_row = new_Lead 9 1 null_enrichment"

definition solo :: lead where
  "solo = blank_lead \<lparr> name := Val ''Ann'' \<rparr>"

definition solo_row :: Lead where
  "solo_row = new_Lead 3 1 solo"

definition spaced_row :: Lead where
  "spaced_row = new_Lead 4 1 (blank_lead \<lparr> name := Val [CHR 0xA0], phone := Val [CHR 0x85],
                                            email := Val ''x'' \<rparr>)"

section \<open>Rounding to the nearest float is monotone\<close>

lemma binade_up_bounds:
  "1 \<le> x \<Longrightarrow> 2 ^ binade_up x \<le> x \<and> x < 2 * 2 ^ binade_up x"
proof (induction x rule: binade_up.induct)
  case (1 x)
  show ?case
  proof (cases "2 \<le> x")
    case True
    then have "1 \<le> x / 2" by simp
    with "1.IH" True have "2 ^ binade_up (x / 2) \<le> x / 2 \<and> x / 2 < 2 * 2 ^ binade_up (x / 2)"
      by blast
    moreover from True have "binade_up x = Suc (binade_up (x / 2))"
      by (subst binade_up.simps) simp
    ultimately show ?thesis by simp
  next
    case False
    then have "binade_up x = 0" by (subst binade_up.simps) simp
    with False "1.prems" show ?thesis by simp
  qed
qed

lemma binade_down_bounds:
  "0 < x \<Longrightarrow> x < 1 \<Longrightarrow> 1 \<le> x * 2 ^ binade_down x \<and> x * 2 ^ binade_down x < 2"
proof (induction x rule: binade_down.induct)
  case (1 x)
  from "1.prems" have step: "binade_down x = Suc (binade_down (2 * x))"
    by (subst binade_down.simps) simp
  show ?case
  proof (cases "2 * x < 1")
    case True
    with "1.IH" "1.prems"
    have "1 \<le> 2 * x * 2 ^ binade_down (2 * x) \<and> 2 * x * 2 ^ binade_down (2 * x) < 2"
      by simp
    with step show ?thesis by (simp add: mult.commute mult.left_commute)
  next
    case False
    then have "binade_down (2 * x) = 0" by (subst binade_down.simps) simp
    with step False "1.prems" show ?thesis by simp
  qed
qed

lemma binade_down_pos: "0 < x \<Longrightarrow> x < 1 \<Longrightarrow> 0 < binade_down x"
  by (subst binade_down.simps) simp

lemma ulp_pos: "0 < ulp x"
  by (simp add: ulp_def)

lemma ulp_bounds:
  assumes "0 < x"
  shows "2 ^ 52 * ulp x \<le> x \<and> x < 2 ^ 53 * ulp x"
proof (cases "1 \<le> x")
  case True
  with binade_up_bounds [OF True] show ?thesis by (simp add: ulp_def)
next
  case False
  with assms have x: "x < 1" by simp
  let ?p = "(2::rat) ^ binade_down x"
  have p: "0 < ?p" by simp
  from binade_down_bounds [OF assms x] have "1 \<le> x * ?p" and "x * ?p < 2" by simp_all
  with p have "1 / ?p \<le> x" and "x < 2 / ?p"
    by (simp_all add: field_simps)
  with False show ?thesis by (simp add: ulp_def)
qed

lemma ulp_mono:
  assumes "0 < x" and "x \<le> y"
  shows "ulp x = ulp y \<or> 2 * ulp x \<le> ulp y"
proof -
  consider "1 \<le> x" | "x < 1" "1 \<le> y" | "y < 1" by linarith
  then show ?thesis
  proof cases
    case 1
    with assms have y: "1 \<le> y" by simp
    from binade_up_bounds [OF 1] binade_up_bounds [OF y] assms(2)
    have "(2::rat) ^ binade_up x < 2 ^ Suc (binade_up y)" by simp
    then have "binade_up x < Suc (binade_up y)"
      by (rule power_less_imp_less_exp [rotated]) simp
    then consider "binade_up x = binade_up y" | "Suc (binade_up x) \<le> binade_up y"
      by linarith
    then show ?thesis
    proof cases
      case 1
      with \<open>1 \<le> x\<close> y show ?thesis by (simp add: ulp_def)
    next
      case 2
      then have "(2::rat) ^ Suc (binade_up x) \<le> 2 ^ binade_up y"
        by (rule power_increasing) simp
      with \<open>1 \<le> x\<close> y show ?thesis by (simp add: ulp_def)
    qed
  next
    case 2
    from binade_down_pos [OF assms(1) 2(1)] obtain k where k: "binade_down x = Suc k"
      by (cases "binade_down x") simp_all
    have "(1::rat) \<le> 2 ^ k" by simp
    moreover have "(1::rat) \<le> 2 ^ binade_up y" by simp
    ultimately have "(1::rat) * 1 \<le> 2 ^ k * 2 ^ binade_up y"
      by (rule mult_mono) simp_all
    then have "2 * (1 / (2 ^ Suc k * 2 ^ 52)) \<le> (2::rat) ^ binade_up y / 2 ^ 52"
      by (simp add: field_simps)
    with 2 k show ?thesis by (simp add: ulp_def)
  next
    case 3
    with assms have x: "x < 1" and y: "0 < y" by simp_all
    let ?kx = "binade_down x" and ?ky = "binade_down y"
    from binade_down_bounds [OF assms(1) x] have bx: "1 \<le> x * 2 ^ ?kx" by simp
    from binade_down_bounds [OF y 3] have by': "y * 2 ^ ?ky < 2" by simp
    have "(2::rat) ^ ?ky \<le> (x * 2 ^ ?kx) * 2 ^ ?ky"
      using bx by (simp add: mult_le_cancel_right1)
    also have "\<dots> \<le> (y * 2 ^ ?ky) * 2 ^ ?kx"
      using assms(2) by (simp add: mult.commute mult.left_commute mult_le_cancel_left_pos)
    also have "\<dots> < 2 * 2 ^ ?kx"
      using by' by simp
    finally have "(2::rat) ^ ?ky < 2 ^ Suc ?kx" by simp
    then have "?ky < Suc ?kx"
      by (rule power_less_imp_less_exp [rotated]) simp
    then consider "?ky = ?kx" | "Suc ?ky \<le> ?kx" by linarith
    then show ?thesis
    proof cases
      case 1
      with x 3 show ?thesis by (simp add: ulp_def)
    next
      case 2
      then have "(2::rat) ^ Suc ?ky \<le> 2 ^ ?kx"
        by (rule power_increasing) simp
      then have "2 * (1 / (2 ^ ?kx * 2 ^ 52)) \<le> 1 / ((2::rat) ^ ?ky * 2 ^ 52)"
        by (simp add: field_simps)
      with x 3 show ?thesis by (simp add: ulp_def)
    qed
  qed
qed

lemma round_half_even_floor: "\<lfloor>x\<rfloor> \<le> round_half_even x \<and> round_half_even x \<le> \<lfloor>x\<rfloor> + 1"
  by (simp add: round_half_even_def Let_def)

lemma round_half_even_lower:
  assumes "of_int m \<le> x"
  shows "m \<le> round_half_even x"
proof -
  from assms have "m \<le> \<lfloor>x\<rfloor>" by (simp add: le_floor_iff)
  with round_half_even_floor [of x] show ?thesis by linarith
qed

lemma round_half_even_upper:
  assumes "x \<le> of_int m"
  shows "round_half_even x \<le> m"
proof (cases "x = of_int \<lfloor>x\<rfloor>")
  case True
  then have "round_half_even x = \<lfloor>x\<rfloor>"
    by (simp add: round_half_even_def Let_def)
  moreover from assms have "\<lfloor>x\<rfloor> \<le> m" by (simp add: floor_le_iff)
  ultimately show ?thesis by simp
next
  case False
  have "of_int \<lfloor>x\<rfloor> \<le> x" by (rule of_int_floor_le)
  with False have "of_int \<lfloor>x\<rfloor> < x" by (metis order_le_imp_less_or_eq)
  with assms have "(of_int \<lfloor>x\<rfloor> :: rat) < of_int m" by linarith
  then have "\<lfloor>x\<rfloor> < m" by (simp only: of_int_less_iff)
  with round_half_even_floor [of x] show ?thesis by linarith
qed

lemma round_half_even_mono:
  assumes "x \<le> y"
  shows "round_half_even x \<le> round_half_even y"
proof (cases "\<lfloor>x\<rfloor> = \<lfloor>y\<rfloor>")
  case True
  with assms show ?thesis
    by (simp add: round_half_even_def Let_def)
next
  case False
  moreover from assms have "\<lfloor>x\<rfloor> \<le> \<lfloor>y\<rfloor>" by (rule floor_mono)
  ultimately have "\<lfloor>x\<rfloor> + 1 \<le> \<lfloor>y\<rfloor>" by simp
  with round_half_even_floor [of x] round_half_even_floor [of y] show ?thesis
    by linarith
qed

lemma double_pos_eq: "0 < x \<Longrightarrow> double x = of_int (round_half_even (x / ulp x)) * ulp x"
  by (simp add: double_def)

lemma double_nonneg:
  assumes "0 \<le> x"
  shows "0 \<le> double x"
proof (cases "x = 0")
  case True
  then show ?thesis by (simp add: double_def)
next
  case False
  with assms have x: "0 < x" by simp
  have "0 \<le> x / ulp x" using x ulp_pos [of x] by simp
  then have "0 \<le> round_half_even (x / ulp x)"
    using round_half_even_lower [of 0 "x / ulp x"] by simp
  with ulp_pos [of x] show ?thesis
    by (simp add: double_pos_eq [OF x])
qed

lemma double_mono:
  assumes "0 \<le> x" and "x \<le> y"
  shows "double x \<le> double y"
proof (cases "x = 0")
  case True
  with assms double_nonneg [of y] show ?thesis by (simp add: double_def)
next
  case False
  with assms have x: "0 < x" and y: "0 < y" by simp_all
  let ?mx = "round_half_even (x / ulp x)" and ?my = "round_half_even (y / ulp y)"
  from ulp_mono [OF x assms(2)] show ?thesis
  proof
    assume same: "ulp x = ulp y"
    have "x / ulp y \<le> y / ulp y"
      using assms(2) ulp_pos [of y] by (simp add: divide_le_cancel)
    then have "round_half_even (x / ulp y) \<le> ?my"
      by (rule round_half_even_mono)
    then have "of_int (round_half_even (x / ulp y)) * ulp y \<le> of_int ?my * ulp y"
      using ulp_pos [of y] by (simp add: mult_le_cancel_right)
    with same show ?thesis
      by (simp add: double_pos_eq [OF x] double_pos_eq [OF y])
  next
    assume gap: "2 * ulp x \<le> ulp y"
    from ulp_bounds [OF x] ulp_pos [of x] have "x / ulp x \<le> 2 ^ 53"
      by (simp add: field_simps)
    then have "x / ulp x \<le> of_int (2 ^ 53)" by simp
    then have "?mx \<le> 2 ^ 53" by (rule round_half_even_upper)
    then have "(of_int ?mx :: rat) \<le> 2 ^ 53"
      by (metis of_int_le_iff of_int_numeral of_int_power)
    then have "of_int ?mx * ulp x \<le> 2 ^ 53 * ulp x"
      using ulp_pos [of x] by (simp add: mult_le_cancel_right)
    also have "\<dots> \<le> 2 ^ 52 * ulp y"
      using gap by simp
    also have "\<dots> \<le> of_int ?my * ulp y"
    proof -
      from ulp_bounds [OF y] ulp_pos [of y] have "2 ^ 52 \<le> y / ulp y"
        by (simp add: field_simps)
      then have "of_int (2 ^ 52) \<le> y / ulp y" by simp
      then have "2 ^ 52 \<le> ?my" by (rule round_half_even_lower)
      then have "(2 ^ 52 :: rat) \<le> of_int ?my"
        by (metis of_int_le_iff of_int_numeral of_int_power)
      then show ?thesis
        using ulp_pos [of y] by (simp add: mult_le_cancel_right)
    qed
    finally show ?thesis
      by (simp add: double_pos_eq [OF x] double_pos_eq [OF y])
  qed
qed

section \<open>Floats of given numbers\<close>

lemma floor_numeral_quotient: "\<lfloor>numeral a / numeral b :: rat\<rfloor> = numeral a div numeral b"
  by (metis floor_divide_of_int_eq of_int_numeral)

lemma round_half_even_quotient:
  assumes "0 < b"
  shows "round_half_even (of_int a / of_int b) =
     (if 2 * (a mod b) < b then a div b
      else if b < 2 * (a mod b) then a div b + 1
      else if even (a div b) then a div b else a div b + 1)"
proof -
  let ?x = "of_int a / of_int b :: rat"
  have fl: "\<lfloor>?x\<rfloor> = a div b" by (rule floor_divide_of_int_eq)
  have "a = b * (a div b) + a mod b" by simp
  then have "(of_int a :: rat) = of_int b * of_int (a div b) + of_int (a mod b)"
    by (metis of_int_add of_int_mult)
  then have frac: "?x - of_int (a div b) = of_int (a mod b) / of_int b"
    using assms by (simp add: field_simps)
  have lt: "of_int (a mod b) / (of_int b :: rat) < 1 / 2 \<longleftrightarrow> 2 * (a mod b) < b"
  proof -
    have "of_int (a mod b) / (of_int b :: rat) < 1 / 2
        \<longleftrightarrow> (of_int (2 * (a mod b)) :: rat) < of_int b"
      using assms by (simp add: field_simps)
    then show ?thesis by (simp only: of_int_less_iff)
  qed
  have gt: "1 / 2 < of_int (a mod b) / (of_int b :: rat) \<longleftrightarrow> b < 2 * (a mod b)"
  proof -
    have "1 / 2 < of_int (a mod b) / (of_int b :: rat)
        \<longleftrightarrow> (of_int b :: rat) < of_int (2 * (a mod b))"
      using assms by (simp add: field_simps)
    then show ?thesis by (simp only: of_int_less_iff)
  qed
  show ?thesis
    unfolding round_half_even_def Let_def fl frac lt gt ..
qed

lemma round_half_even_numeral_quotient:
  "round_half_even (numeral a / numeral b) =
     (if 2 * (numeral a mod numeral b) < (numeral b :: int) then numeral a div numeral b
      else if (numeral b :: int) < 2 * (numeral a mod numeral b) then numeral a div numeral b + 1
      else if even (numeral a div numeral b :: int) then numeral a div numeral b
      else numeral a div numeral b + 1)"
  using round_half_even_quotient [of "numeral b" "numeral a"] by simp

lemma round_half_even_numeral: "round_half_even (numeral a) = numeral a"
  "round_half_even 0 = 0" "round_half_even 1 = 1"
  by (simp_all add: round_half_even_def)

lemmas double_eval = double_def ulp_def binade_up.simps binade_down.simps
  round_half_even_numeral_quotient round_half_even_numeral floor_numeral_quotient py_int_def

section \<open>The arithmetic of the scorers\<close>

text \<open>
  The incremental scorer's completeness and quality for up to six filled fields and fewer
  than ten platforms: the completeness is within \<open>1 / 2 ^ 53\<close> of the exact value, and
  the truncation of its hundredfold is the truncation of the exact hundredfold. Then the
  same for its confidence and for the final scorer.
\<close>

lemma small_nat_cases:
  "f \<le> 6 \<Longrightarrow> f \<in> {0, 1, 2, 3, 4, 5, 6::nat}"
  "n < 10 \<Longrightarrow> n \<in> {0, 1, 2, 3, 4, 5, 6, 7, 8, 9::nat}"
  by auto

lemma incremental_table:
  assumes "f \<le> 6" and "n < 10"
  shows "\<bar>min 1 (double (double (of_nat f / 6) + double (of_nat n * double (1 / 10))))
        - min 1 (of_nat f / 6 + of_nat n / 10)\<bar> \<le> 1 / 2 ^ 53
     \<and> py_int (double (min 1 (double (double (of_nat f / 6)
                                  + double (of_nat n * double (1 / 10)))) * 100))
         = \<lfloor>min 1 (of_nat f / 6 + of_nat n / 10 :: rat) * 100\<rfloor>"
  using small_nat_cases(1) [OF assms(1)] small_nat_cases(2) [OF assms(2)]
  by (elim insertE emptyE; simp add: double_eval)

lemma confidence_table:
  assumes "n < 4"
  shows "min (double (95 / 100)) (double (double (6 / 10) + double (of_nat n * double (1 / 10))))
       = double (min (95 / 100) (6 / 10 + of_nat n / 10))"
proof -
  from assms have "n \<in> {0, 1, 2, 3}" by auto
  then show ?thesis
    by (elim insertE emptyE; simp add: double_eval)
qed

lemma final_table:
  assumes "f \<le> 6"
  shows "py_int (double (double (of_nat f / 6) * 100)) = \<lfloor>(of_nat f / 6 :: rat) * 100\<rfloor>
     \<and> double (of_nat f / 6) \<le> 1"
  using small_nat_cases(1) [OF assms]
  by (elim insertE emptyE; simp add: double_eval)

lemma double_tenths: "double (10 * double (1 / 10)) = 1"
  "double (double (6 / 10) + double (4 * double (1 / 10))) = 1"
  "double (95 / 100) \<le> 1" "double 1 = 1" "double 100 = 100"
  by (simp_all add: double_eval)

lemma filled_fields_le: "filled_fields r \<le> 6"
proof -
  have "filled_fields r \<le> length (Lead_fields r)"
    unfolding filled_fields_def by (rule length_filter_le)
  then show ?thesis by (simp add: Lead_fields_def)
qed

lemma filled_base_le: "filled_base l \<le> 6"
proof -
  have "filled_base l \<le> length (base_fields l)"
    unfolding filled_base_def by (rule length_filter_le)
  then show ?thesis by (simp add: base_fields_def)
qed

lemma floor_percent_le: "(x :: rat) \<le> 1 \<Longrightarrow> \<lfloor>x * 100\<rfloor> \<le> 100"
proof -
  assume "x \<le> 1"
  then have "x * 100 \<le> 100" by linarith
  then have "\<lfloor>x * 100\<rfloor> \<le> \<lfloor>100 :: rat\<rfloor>" by (rule floor_mono)
  then show ?thesis by simp
qed

text \<open>From ten platforms on the bonus alone reaches the cap.\<close>

lemma bonus_capped:
  assumes "10 \<le> n" and "0 \<le> b"
  shows "1 \<le> double (b + double (of_nat n * double (1 / 10)))"
proof -
  have tenth: "0 \<le> double (1 / 10)" by (rule double_nonneg) simp
  have "(10::rat) \<le> of_nat n" using assms(1) by simp
  then have "10 * double (1 / 10) \<le> of_nat n * double (1 / 10)"
    using tenth by (rule mult_right_mono)
  moreover have "0 \<le> 10 * double (1 / 10)" using tenth by simp
  ultimately have "double (10 * double (1 / 10)) \<le> double (of_nat n * double (1 / 10))"
    by (rule double_mono [rotated])
  then have "1 \<le> b + double (of_nat n * double (1 / 10))"
    using assms(2) by (simp add: double_tenths)
  then have "double 1 \<le> double (b + double (of_nat n * double (1 / 10)))"
    by (rule double_mono [rotated]) simp
  then show ?thesis by (simp add: double_tenths)
qed

text \<open>From four platforms on the confidence sum reaches one.\<close>

lemma confidence_capped:
  assumes "4 \<le> n"
  shows "1 \<le> double (double (6 / 10) + double (of_nat n * double (1 / 10)))"
proof -
  have tenth: "0 \<le> double (1 / 10)" by (rule double_nonneg) simp
  have "(4::rat) \<le> of_nat n" using assms by simp
  then have "4 * double (1 / 10) \<le> of_nat n * double (1 / 10)"
    using tenth by (rule mult_right_mono)
  moreover have "0 \<le> 4 * double (1 / 10)" using tenth by simp
  ultimately have "double (4 * double (1 / 10)) \<le> double (of_nat n * double (1 / 10))"
    by (rule double_mono [rotated])
  then have le: "double (6 / 10) + double (4 * double (1 / 10))
      \<le> double (6 / 10) + double (of_nat n * double (1 / 10))"
    by simp
  have "0 \<le> double (6 / 10)" by (rule double_nonneg) simp
  moreover have "0 \<le> double (4 * double (1 / 10))"
    by (rule double_nonneg) (simp add: tenth)
  ultimately have "0 \<le> double (6 / 10) + double (4 * double (1 / 10))" by simp
  then have "double (double (6 / 10) + double (4 * double (1 / 10)))
      \<le> double (double (6 / 10) + double (of_nat n * double (1 / 10)))"
    using le by (rule double_mono)
  then show ?thesis by (simp only: double_tenths(2))
qed

text \<open>
  What the incremental scorer returns for a lead with \<open>f\<close> filled fields whose enrichment
  data has \<open>n\<close> keys, against the exact values.
\<close>

lemma incremental_scores:
  assumes "get_enrichment l = Some d"
  shows "\<exists>s. calculate_enrichment_scores l = Inr s
     \<and> score_completeness s
         = min 1 (double (double (of_nat (filled_base l) / 6)
                          + double (of_nat (dict_len d) * double (1 / 10))))
     \<and> \<bar>score_completeness s
          - min 1 (of_nat (filled_base l) / 6 + of_nat (dict_len d) / 10)\<bar> \<le> 1 / 2 ^ 53
     \<and> score_quality s
         = \<lfloor>min 1 (of_nat (filled_base l) / 6 + of_nat (dict_len d) / 10 :: rat) * 100\<rfloor>
     \<and> score_confidence s = double (min (95 / 100) (6 / 10 + of_nat (dict_len d) / 10))"
proof -
  let ?f = "filled_base l" and ?n = "dict_len d"
  let ?t = "min 1 (double (double (of_nat ?f / 6) + double (of_nat ?n * double (1 / 10))))"
  let ?exact = "min 1 (of_nat ?f / 6 + of_nat ?n / 10) :: rat"
  let ?c = "min (double (95 / 100))
      (double (double (6 / 10) + double (of_nat ?n * double (1 / 10))))"
  have run: "calculate_enrichment_scores l
      = Inr \<lparr> score_quality = py_int (double (?t * 100)), score_completeness = ?t,
              score_confidence = ?c \<rparr>"
    using assms by (simp add: calculate_enrichment_scores_def Let_def base_fields_def)
  have near: "\<bar>?t - ?exact\<bar> \<le> 1 / 2 ^ 53 \<and> py_int (double (?t * 100)) = \<lfloor>?exact * 100\<rfloor>"
  proof (cases "?n < 10")
    case True
    with incremental_table [OF filled_base_le [of l]] show ?thesis by blast
  next
    case False
    then have n: "10 \<le> ?n" by simp
    have "0 \<le> double (of_nat ?f / 6)" by (rule double_nonneg) simp
    with n have "1 \<le> double (double (of_nat ?f / 6) + double (of_nat ?n * double (1 / 10)))"
      by (rule bonus_capped)
    then have t: "?t = 1" by simp
    have "(10::rat) \<le> of_nat ?n" using n by simp
    then have "(1::rat) \<le> of_nat ?f / 6 + of_nat ?n / 10" by simp
    then have e: "?exact = 1" by simp
    show ?thesis
      unfolding t e by (simp add: double_tenths py_int_def)
  qed
  have conf: "?c = double (min (95 / 100) (6 / 10 + of_nat ?n / 10))"
  proof (cases "?n < 4")
    case True
    then show ?thesis by (rule confidence_table)
  next
    case False
    then have n: "4 \<le> ?n" by simp
    from confidence_capped [OF n] double_tenths(3)
    have c: "?c = double (95 / 100)" by simp
    have "(4::rat) \<le> of_nat ?n" using n by simp
    then have "(95 / 100 :: rat) \<le> 6 / 10 + of_nat ?n / 10" by simp
    then have "min (95 / 100) (6 / 10 + of_nat ?n / 10 :: rat) = 95 / 100"
      by (rule min_absorb1)
    with c show ?thesis by (simp only:)
  qed
  from run near conf show ?thesis by simp
qed

lemma incremental_raises:
  "get_enrichment l = None \<Longrightarrow> calculate_enrichment_scores l = Inl TypeError"
  by (simp add: calculate_enrichment_scores_def)

lemma final_quality:
  "score_quality (quality_scores_of r) =
     min 100 (\<lfloor>(of_nat (filled_fields r) / 6 :: rat) * 100\<rfloor> + int (min (Lead_platforms r) 20))"
proof -
  let ?q = "\<lfloor>(of_nat (filled_fields r) / 6 :: rat) * 100\<rfloor>"
  have q: "py_int (double (double (of_nat (filled_fields r) / 6) * 100)) = ?q"
    using final_table [OF filled_fields_le [of r]] by simp
  have "(of_nat (filled_fields r) :: rat) \<le> 6"
    using filled_fields_le [of r] by simp
  then have "(of_nat (filled_fields r) / 6 :: rat) \<le> 1" by simp
  then have le: "?q \<le> 100" by (rule floor_percent_le)
  show ?thesis
  proof (cases "Lead_enrichment_data r")
    case None
    with q le show ?thesis
      by (simp add: quality_scores_of_def Lead_fields_def Lead_platforms_def Let_def)
  next
    case (Some d)
    show ?thesis
    proof (cases "d = []")
      case True
      with Some q le show ?thesis
        by (simp add: quality_scores_of_def Lead_fields_def Lead_platforms_def Let_def
            dict_len_def)
    next
      case False
      with Some q show ?thesis
        by (simp add: quality_scores_of_def Lead_fields_def Lead_platforms_def Let_def)
    qed
  qed
qed

lemma final_completeness:
  "score_completeness (quality_scores_of r) = double (of_nat (filled_fields r) / 6)"
  by (simp add: quality_scores_of_def Lead_fields_def Let_def)

lemma final_confidence:
  "score_confidence (quality_scores_of r)
     = (if score_quality (quality_scores_of r) > 70 then double (8 / 10) else double (6 / 10))"
  by (simp add: quality_scores_of_def Let_def)

section \<open>Batches, tasks and platforms of the enrichment coordinator\<close>







lemma collect_append: "collect (xs @ ys) = collect xs @ collect ys"
  by (induction xs rule: collect.induct) simp_all






lemma dict_set_keys: "fst ` set (dict_set d k v) = insert k (fst ` set d)"
  by (induction d k v rule: dict_set.induct) auto

lemma enrich_platforms_failing:
  assumes "\<forall>l' fs n. \<exists>e. enrich p l' fs n = Inl e"
  shows "enrich_platforms enrich cfg l ed ps = enrich_platforms enrich cfg l ed (removeAll p ps)"
proof (induction ps arbitrary: ed)
  case Nil
  show ?case by simp
next
  case (Cons q ps)
  show ?case
  proof (cases "q = p")
    case True
    from assms obtain e
      where "enrich p (lead_as_seen l ed) (config_fields cfg) (depth cfg) = Inl e"
      by blast
    with True Cons.IH [of ed] show ?thesis by simp
  next
    case False
    with Cons.IH show ?thesis
      by (simp split: sum.splits option.splits)
  qed
qed

lemma enrich_platforms_None: "enrich_platforms enrich cfg l None ps = None"
  by (induction ps) (simp_all split: sum.splits)

lemma enrich_platforms_Some:
  "\<exists>d'. enrich_platforms enrich cfg l (Some d) ps = Some d' \<and> fst ` set d \<subseteq> fst ` set d'"
proof (induction ps arbitrary: d)
  case Nil
  show ?case by simp
next
  case (Cons q ps)
  show ?case
  proof (cases "in_enrichers q")
    case False
    with Cons.IH [of d] show ?thesis by simp
  next
    case True
    show ?thesis
    proof (cases "enrich q (lead_as_seen l (Some d)) (config_fields cfg) (depth cfg)")
      case (Inl e)
      with True Cons.IH [of d] show ?thesis by simp
    next
      case (Inr platform_data)
      from Cons.IH [of "dict_set d (platform_value q) platform_data"]
      obtain d' where "enrich_platforms enrich cfg l
            (Some (dict_set d (platform_value q) platform_data)) ps = Some d'"
        and "fst ` set (dict_set d (platform_value q) platform_data) \<subseteq> fst ` set d'"
        by blast
      with True Inr show ?thesis
        by (auto simp: dict_set_keys)
    qed
  qed
qed

lemma enrich_platforms_contribution:
  assumes "q \<in> set ps" and "in_enrichers q"
    and "\<forall>l' fs n. \<exists>data. enrich q l' fs n = Inr data"
    and "enrich_platforms enrich cfg l (Some d) ps = Some d'"
  shows "platform_value q \<in> fst ` set d'"
  using assms(1,4)
proof (induction ps arbitrary: d)
  case Nil
  then show ?case by simp
next
  case (Cons r ps)
  show ?case
  proof (cases "r = q")
    case True
    from assms(3) obtain data
      where data: "enrich q (lead_as_seen l (Some d)) (config_fields cfg) (depth cfg) = Inr data"
      by blast
    from enrich_platforms_Some [of enrich cfg l "dict_set d (platform_value q) data" ps]
    obtain d'' where "enrich_platforms enrich cfg l
          (Some (dict_set d (platform_value q) data)) ps = Some d''"
      and "fst ` set (dict_set d (platform_value q) data) \<subseteq> fst ` set d''"
      by blast
    with Cons.prems(2) True assms(2) data show ?thesis
      by (auto simp: dict_set_keys)
  next
    case False
    with Cons.prems have q: "q \<in> set ps" by simp
    show ?thesis
    proof (cases "in_enrichers r")
      case False
      with Cons.prems(2) Cons.IH [OF q] show ?thesis by simp
    next
      case True
      show ?thesis
      proof (cases "enrich r (lead_as_seen l (Some d)) (config_fields cfg) (depth cfg)")
        case (Inl e)
        with True Cons.prems(2) Cons.IH [OF q] show ?thesis by simp
      next
        case (Inr platform_data)
        with True Cons.prems(2) Cons.IH [OF q] show ?thesis by simp
      qed
    qed
  qed
qed

lemma enrich_single_lead_Some:
  assumes "get_enrichment l = Some d"
    and "enrich_platforms enrich cfg l (Some d) ps = Some d'"
  shows "\<exists>out. enrich_single_lead enrich l ps cfg = Inr out \<and> enrichment_data out = Val d'"
  using assms
  by (simp add: enrich_single_lead_def set_enrichment_def calculate_enrichment_scores_def
      get_enrichment_def Let_def)

lemma enrich_single_lead_Null:
  assumes "get_enrichment l = None"
  shows "enrich_single_lead enrich l ps cfg = Inl TypeError"
  using assms
  by (simp add: enrich_single_lead_def set_enrichment_def calculate_enrichment_scores_def
      get_enrichment_def Let_def enrich_platforms_None)

lemma collect_failed:
  assumes "f bad = Inl err"
  shows "collect (map f (xs @ bad # ys)) = collect (map f (xs @ ys))"
  using assms by (simp add: collect_append)


lemma set_collect: "set (collect rs) = {r. Inr r \<in> set rs}"
  by (induction rs rule: collect.induct) auto

lemma collect_keeps: "l \<in> set ls \<Longrightarrow> f l = Inr r \<Longrightarrow> r \<in> set (collect (map f ls))"
  unfolding set_collect by (metis (mono_tags, lifting) image_eqI mem_Collect_eq set_map)

lemma length_collect: "length (collect rs) \<le> length rs"
  by (induction rs rule: collect.induct) simp_all

lemma length_collect_failed: "Inl e \<in> set rs \<Longrightarrow> length (collect rs) < length rs"
proof (induction rs rule: collect.induct)
  case 1
  then show ?case by simp
next
  case (2 d batch_results)
  then show ?case by simp
next
  case (3 e' batch_results)
  have "length (collect batch_results) \<le> length batch_results"
    by (rule length_collect)
  then show ?case by simp
qed

lemma enrich_single_lead_id:
  "enrich_single_lead enrich l platforms cfg = Inr r \<Longrightarrow> lead_id r = lead_id l"
  by (auto simp: enrich_single_lead_def set_enrichment_def Let_def split: sum.splits)

lemma length_update_leads_enrichment:
  "length (update_leads_enrichment enriched rows) = length rows"
  by (induction enriched arbitrary: rows) (simp_all split: entry.splits)

lemma Lead_id_update_Lead: "Lead_id (update_Lead lead_data r) = Lead_id r"
  by (simp add: update_Lead_def)

lemma update_leads_enrichment_untouched:
  assumes "i < length rows"
    and "\<forall>lead_data \<in> set enriched. lead_id lead_data \<noteq> Val (Lead_id (rows ! i))"
  shows "update_leads_enrichment enriched rows ! i = rows ! i"
  using assms
proof (induction enriched arbitrary: rows)
  case Nil
  show ?case by simp
next
  case (Cons lead_data enriched)
  show ?case
  proof (cases "lead_id lead_data")
    case (Val j)
    let ?rows = "map (\<lambda>r. if Lead_id r = j then update_Lead lead_data r else r) rows"
    from Cons.prems Val have other: "Lead_id (rows ! i) \<noteq> j"
      by auto
    with Cons.prems(1) have same: "?rows ! i = rows ! i"
      by simp
    have "update_leads_enrichment enriched ?rows ! i = ?rows ! i"
    proof (rule Cons.IH)
      show "i < length ?rows" using Cons.prems(1) by simp
      show "\<forall>lead_data \<in> set enriched. lead_id lead_data \<noteq> Val (Lead_id (?rows ! i))"
        using Cons.prems(2) same by simp
    qed
    with same Val show ?thesis by simp
  next
    case Absent
    with Cons.IH [of rows] Cons.prems show ?thesis by simp
  next
    case Null
    with Cons.IH [of rows] Cons.prems show ?thesis by simp
  qed
qed

lemma calculate_quality_scores_nth:
  "i < length rows \<Longrightarrow>
     calculate_quality_scores job_id rows ! i
       = (if Lead_job_id (rows ! i) = job_id then score_lead (rows ! i) else rows ! i)"
  by (simp add: calculate_quality_scores_def)

lemma collect_sources:
  "r \<in> set (collect (map f ls)) \<Longrightarrow> \<exists>l \<in> set ls. f l = Inr r"
  unfolding set_collect by auto

section \<open>The deduplicator keeps first occurrences and drops empty keys\<close>














section \<open>What the two scorers compute\<close>

lemma florist_facts:
  "get_enrichment florist = Some [(''linkedin'', [(''headline'', ''Owner'')]),
                                  (''facebook'', [(''page_likes'', ''50'')])]"
  "dict_len [(''linkedin'', [(''headline'', ''Owner'')]),
             (''facebook'', [(''page_likes'', ''50'')])] = (2::nat)"
  "filled_base florist = 3" "filled_fields florist_row = 3" "Lead_platforms florist_row = 2"
  by code_simp+

lemma solo_facts:
  "get_enrichment solo = Some []" "dict_len ([] :: (string \<times> payload) list) = 0"
  "filled_base solo = 1" "filled_fields solo_row = 1" "Lead_platforms solo_row = 0"
  "filled_fields spaced_row = 1" "Lead_platforms spaced_row = 0"
  "get_enrichment null_enrichment = None"
  by code_simp+

lemma spec_values:
  "spec_total_completeness 3 2 = 7 / 10" "spec_quality_score 3 2 = 72"
  "spec_quality_score 1 0 = 17"
  by (simp_all add: spec_quality_score_def spec_total_completeness_def round_def
      floor_numeral_quotient)

text \<open>
  C4 (as the code has it). The two scorers compute different things, and neither rounds.
  The incremental scorer, on a lead with \<open>f\<close> filled fields whose enrichment data is a
  dictionary with \<open>n\<close> keys, returns the completeness \<open>min(1.0, f / 6 + n * 0.1)\<close> as the
  floats give it, which is within \<open>1 / 2 ^ 53\<close> of the exact value, and as quality the
  truncation of a hundred times that completeness, which is the truncation of the exact
  hundredfold: no point per platform is added. On a lead whose enrichment data is
  \<^verbatim>\<open>None\<close> it raises \<^verbatim>\<open>TypeError\<close>. The final scorer, on a stored lead with \<open>f\<close> columns
  that are not blank, returns the completeness \<open>f / 6\<close> (the float nearest to it) with no
  enrichment bonus, and as quality the truncation of the hundredfold plus one point per
  platform up to twenty, capped at 100. Completeness stays in \<open>[0, 1]\<close> and quality in
  \<open>[0, 100]\<close> for both.
\<close>

theorem scorers_completeness_quality:
  "(get_enrichment l = Some d \<longrightarrow>
      (\<exists>s. calculate_enrichment_scores l = Inr s
         \<and> score_completeness s
             = min 1 (double (double (of_nat (filled_base l) / 6)
                              + double (of_nat (dict_len d) * double (1 / 10))))
         \<and> \<bar>score_completeness s
              - min 1 (of_nat (filled_base l) / 6 + of_nat (dict_len d) / 10)\<bar> \<le> 1 / 2 ^ 53
         \<and> score_quality s
             = \<lfloor>min 1 (of_nat (filled_base l) / 6 + of_nat (dict_len d) / 10 :: rat) * 100\<rfloor>
         \<and> 0 \<le> score_completeness s \<and> score_completeness s \<le> 1
         \<and> 0 \<le> score_quality s \<and> score_quality s \<le> 100))
   \<and> (get_enrichment l = None \<longrightarrow> calculate_enrichment_scores l = Inl TypeError)
   \<and> score_completeness (quality_scores_of r) = double (of_nat (filled_fields r) / 6)
   \<and> score_quality (quality_scores_of r)
       = min 100 (\<lfloor>(of_nat (filled_fields r) / 6 :: rat) * 100\<rfloor>
                  + int (min (Lead_platforms r) 20))
   \<and> 0 \<le> score_completeness (quality_scores_of r)
   \<and> score_completeness (quality_scores_of r) \<le> 1
   \<and> 0 \<le> score_quality (quality_scores_of r)
   \<and> score_quality (quality_scores_of r) \<le> 100"
proof -
  let ?exact = "min 1 (of_nat (filled_base l) / 6 + of_nat (dict_len d) / 10) :: rat"
  have inc: "get_enrichment l = Some d \<longrightarrow>
      (\<exists>s. calculate_enrichment_scores l = Inr s
         \<and> score_completeness s
             = min 1 (double (double (of_nat (filled_base l) / 6)
                              + double (of_nat (dict_len d) * double (1 / 10))))
         \<and> \<bar>score_completeness s - ?exact\<bar> \<le> 1 / 2 ^ 53
         \<and> score_quality s = \<lfloor>?exact * 100\<rfloor>
         \<and> 0 \<le> score_completeness s \<and> score_completeness s \<le> 1
         \<and> 0 \<le> score_quality s \<and> score_quality s \<le> 100)"
  proof
    assume "get_enrichment l = Some d"
    from incremental_scores [OF this] obtain s
      where s: "calculate_enrichment_scores l = Inr s"
        and c: "score_completeness s
             = min 1 (double (double (of_nat (filled_base l) / 6)
                              + double (of_nat (dict_len d) * double (1 / 10))))"
        and near: "\<bar>score_completeness s - ?exact\<bar> \<le> 1 / 2 ^ 53"
        and q: "score_quality s = \<lfloor>?exact * 100\<rfloor>"
      by blast
    have "0 \<le> double (of_nat (filled_base l) / 6)"
      by (rule double_nonneg) simp
    moreover have "0 \<le> double (of_nat (dict_len d) * double (1 / 10))"
      by (rule double_nonneg) (simp add: double_nonneg)
    ultimately have "0 \<le> double (of_nat (filled_base l) / 6)
        + double (of_nat (dict_len d) * double (1 / 10))"
      by simp
    then have "0 \<le> double (double (of_nat (filled_base l) / 6)
        + double (of_nat (dict_len d) * double (1 / 10)))"
      by (rule double_nonneg)
    then have c0: "0 \<le> score_completeness s" and c1: "score_completeness s \<le> 1"
      unfolding c by simp_all
    have e0: "0 \<le> ?exact" and e1: "?exact \<le> 1" by simp_all
    from e0 have q0: "0 \<le> score_quality s" unfolding q by simp
    from e1 have q1: "score_quality s \<le> 100" unfolding q by (rule floor_percent_le)
    from s c near q c0 c1 q0 q1
    show "\<exists>s. calculate_enrichment_scores l = Inr s
         \<and> score_completeness s
             = min 1 (double (double (of_nat (filled_base l) / 6)
                              + double (of_nat (dict_len d) * double (1 / 10))))
         \<and> \<bar>score_completeness s - ?exact\<bar> \<le> 1 / 2 ^ 53
         \<and> score_quality s = \<lfloor>?exact * 100\<rfloor>
         \<and> 0 \<le> score_completeness s \<and> score_completeness s \<le> 1
         \<and> 0 \<le> score_quality s \<and> score_quality s \<le> 100"
      by blast
  qed
  have none: "get_enrichment l = None \<longrightarrow> calculate_enrichment_scores l = Inl TypeError"
    by (simp add: incremental_raises)
  have fc0: "0 \<le> score_completeness (quality_scores_of r)"
    unfolding final_completeness by (rule double_nonneg) simp
  have fc1: "score_completeness (quality_scores_of r) \<le> 1"
    unfolding final_completeness using final_table [OF filled_fields_le [of r]] by simp
  have "0 \<le> \<lfloor>(of_nat (filled_fields r) / 6 :: rat) * 100\<rfloor>" by simp
  then have fq0: "0 \<le> score_quality (quality_scores_of r)"
    unfolding final_quality by simp
  have fq1: "score_quality (quality_scores_of r) \<le> 100"
    unfolding final_quality by simp
  from inc none final_completeness [of r] final_quality [of r] fc0 fc1 fq0 fq1
  show ?thesis by blast
qed

text \<open>
  A lead with three filled fields and two platforms: quality 70 from the incremental
  scorer and 52 from the final one. A row whose name and phone hold white space only
  counts one filled column, quality 16.
\<close>

theorem scorers_completeness_quality_witness:
  "get_enrichment florist = Some [(''linkedin'', [(''headline'', ''Owner'')]),
                                  (''facebook'', [(''page_likes'', ''50'')])]
   \<and> (\<exists>s. calculate_enrichment_scores florist = Inr s \<and> score_quality s = 70)
   \<and> score_quality (quality_scores_of florist_row) = 52
   \<and> filled_fields spaced_row = 1
   \<and> score_quality (quality_scores_of spaced_row) = 16"
proof -
  note inst = scorers_completeness_quality [of florist
      "[(''linkedin'', [(''headline'', ''Owner'')]), (''facebook'', [(''page_likes'', ''50'')])]"]
  from inst [of florist_row] florist_facts(1) obtain s
    where "calculate_enrichment_scores florist = Inr s"
      and "score_quality s
        = \<lfloor>min 1 (of_nat (filled_base florist) / 6
              + of_nat (dict_len [(''linkedin'', [(''headline'', ''Owner'')]),
                                  (''facebook'', [(''page_likes'', ''50'')])]) / 10 :: rat) * 100\<rfloor>"
    by blast
  then have a: "\<exists>s. calculate_enrichment_scores florist = Inr s \<and> score_quality s = 70"
    by (simp add: florist_facts floor_numeral_quotient)
  from inst [of florist_row] have b: "score_quality (quality_scores_of florist_row) = 52"
    by (simp add: florist_facts floor_numeral_quotient)
  from inst [of spaced_row] have c: "score_quality (quality_scores_of spaced_row) = 16"
    by (simp add: solo_facts floor_numeral_quotient)
  from florist_facts(1) a b solo_facts(6) c show ?thesis by blast
qed

text \<open>
  The claim as written fails. On a lead with one filled field and no platform the
  specification's formula rounds 16.67 to 17, where both scorers truncate to 16. On a
  lead with three filled fields and two platforms the formula gives completeness 0.7 and
  quality 72, the incremental scorer gives quality 70 (no platform points), and the final
  scorer gives completeness 0.5 (no enrichment bonus) and quality 52.
\<close>

theorem scorers_differ_from_spec:
  "filled_base solo = 1 \<and> filled_fields solo_row = 1 \<and> Lead_platforms solo_row = 0
   \<and> spec_quality_score 1 0 = 17
   \<and> (\<exists>s. calculate_enrichment_scores solo = Inr s \<and> score_quality s = 16)
   \<and> score_quality (quality_scores_of solo_row) = 16
   \<and> filled_base florist = 3 \<and> filled_fields florist_row = 3 \<and> Lead_platforms florist_row = 2
   \<and> spec_total_completeness 3 2 = 7 / 10 \<and> spec_quality_score 3 2 = 72
   \<and> (\<exists>s. calculate_enrichment_scores florist = Inr s \<and> score_quality s = 70)
   \<and> score_quality (quality_scores_of florist_row) = 52
   \<and> score_completeness (quality_scores_of florist_row) = 1 / 2"
proof -
  from incremental_scores [OF solo_facts(1)]
  have a: "\<exists>s. calculate_enrichment_scores solo = Inr s \<and> score_quality s = 16"
    by (auto simp: solo_facts floor_numeral_quotient)
  have b: "score_quality (quality_scores_of solo_row) = 16"
    by (simp add: final_quality solo_facts floor_numeral_quotient)
  from incremental_scores [OF florist_facts(1)]
  have c: "\<exists>s. calculate_enrichment_scores florist = Inr s \<and> score_quality s = 70"
    by (auto simp: florist_facts floor_numeral_quotient)
  have d: "score_quality (quality_scores_of florist_row) = 52"
    by (simp add: final_quality florist_facts floor_numeral_quotient)
  have e: "score_completeness (quality_scores_of florist_row) = 1 / 2"
    by (simp add: final_completeness florist_facts double_eval)
  from a b c d e solo_facts(3,4,5) florist_facts(3,4,5) spec_values show ?thesis
    by blast
qed

text \<open>
  C5 (as the code has it). The final scorer sets the confidence to 0.8 when the quality
  it has just recomputed is above 70 and to 0.6 otherwise, and stores it in the row. The
  incremental scorer, on a lead whose enrichment data is a dictionary \<open>d\<close>, returns the
  confidence \<open>min(0.95, 0.6 + 0.1 \<times> platforms)\<close> (the float nearest to it); on a lead whose
  enrichment data is \<^verbatim>\<open>None\<close> it raises \<^verbatim>\<open>TypeError\<close> and returns no confidence.
\<close>

theorem confidence_scores:
  "score_confidence (quality_scores_of r)
     = (if score_quality (quality_scores_of r) > 70 then double (8 / 10) else double (6 / 10))
   \<and> Lead_confidence_score (score_lead r)
     = Some (if score_quality (quality_scores_of r) > 70 then double (8 / 10)
             else double (6 / 10))
   \<and> Lead_quality_score (score_lead r) = Some (score_quality (quality_scores_of r))
   \<and> (get_enrichment l = Some d \<longrightarrow>
        (\<exists>s. calculate_enrichment_scores l = Inr s
           \<and> score_confidence s
               = min (double (95 / 100))
                   (double (double (6 / 10) + double (of_nat (dict_len d) * double (1 / 10))))
           \<and> score_confidence s = double (min (95 / 100) (6 / 10 + of_nat (dict_len d) / 10))))
   \<and> (get_enrichment l = None \<longrightarrow> calculate_enrichment_scores l = Inl TypeError)"
proof -
  have b: "Lead_confidence_score (score_lead r) = Some (score_confidence (quality_scores_of r))"
    "Lead_quality_score (score_lead r) = Some (score_quality (quality_scores_of r))"
    by (simp_all add: score_lead_def Let_def)
  have c: "get_enrichment l = Some d \<longrightarrow>
        (\<exists>s. calculate_enrichment_scores l = Inr s
           \<and> score_confidence s
               = min (double (95 / 100))
                   (double (double (6 / 10) + double (of_nat (dict_len d) * double (1 / 10))))
           \<and> score_confidence s = double (min (95 / 100) (6 / 10 + of_nat (dict_len d) / 10)))"
  proof
    assume g: "get_enrichment l = Some d"
    from incremental_scores [OF g] obtain s
      where s: "calculate_enrichment_scores l = Inr s"
        and near: "score_confidence s = double (min (95 / 100) (6 / 10 + of_nat (dict_len d) / 10))"
      by blast
    from s g have "score_confidence s
        = min (double (95 / 100))
            (double (double (6 / 10) + double (of_nat (dict_len d) * double (1 / 10))))"
      by (auto simp: calculate_enrichment_scores_def Let_def)
    with s near show "\<exists>s. calculate_enrichment_scores l = Inr s
           \<and> score_confidence s
               = min (double (95 / 100))
                   (double (double (6 / 10) + double (of_nat (dict_len d) * double (1 / 10))))
           \<and> score_confidence s = double (min (95 / 100) (6 / 10 + of_nat (dict_len d) / 10))"
      by blast
  qed
  have d: "get_enrichment l = None \<longrightarrow> calculate_enrichment_scores l = Inl TypeError"
    by (simp add: incremental_raises)
  from final_confidence [of r] b c d show ?thesis by simp
qed

theorem confidence_scores_witness:
  "score_quality (quality_scores_of florist_row) = 52
   \<and> score_confidence (quality_scores_of florist_row) = double (6 / 10)
   \<and> get_enrichment florist = Some [(''linkedin'', [(''headline'', ''Owner'')]),
                                    (''facebook'', [(''page_likes'', ''50'')])]
   \<and> (\<exists>s. calculate_enrichment_scores florist = Inr s
          \<and> score_confidence s = double (8 / 10))
   \<and> get_enrichment null_enrichment = None
   \<and> calculate_enrichment_scores null_enrichment = Inl TypeError"
proof -
  have q: "score_quality (quality_scores_of florist_row) = 52"
    by (simp add: final_quality florist_facts floor_numeral_quotient)
  note inst = confidence_scores [where r = florist_row]
  from inst [of florist] q
  have c: "score_confidence (quality_scores_of florist_row) = double (6 / 10)"
    by simp
  from inst [of florist "[(''linkedin'', [(''headline'', ''Owner'')]),
      (''facebook'', [(''page_likes'', ''50'')])]"] florist_facts(1)
  obtain s where "calculate_enrichment_scores florist = Inr s"
    and "score_confidence s
      = double (min (95 / 100) (6 / 10
          + of_nat (dict_len [(''linkedin'', [(''headline'', ''Owner'')]),
                              (''facebook'', [(''page_likes'', ''50'')])]) / 10))"
    by blast
  then have i: "\<exists>s. calculate_enrichment_scores florist = Inr s
      \<and> score_confidence s = double (8 / 10)"
    by (simp add: florist_facts)
  from inst [of null_enrichment] solo_facts(8)
  have n: "calculate_enrichment_scores null_enrichment = Inl TypeError"
    by blast
  from q c florist_facts(1) i solo_facts(8) n show ?thesis by blast
qed

text \<open>
  The claim as written fails for a lead whose enrichment data is \<^verbatim>\<open>None\<close>: the incremental
  scorer raises and assigns no confidence.
\<close>

theorem incremental_scorer_raises_on_none:
  "enrichment_data null_enrichment = Null
   \<and> calculate_enrichment_scores null_enrichment = Inl TypeError"
proof -
  have "enrichment_data null_enrichment = Null" by code_simp
  with incremental_raises [OF solo_facts(8)] show ?thesis by simp
qed

section \<open>Batches of the enrichment coordinator\<close>





end
